theory Spec2Isabelle
  imports Main
begin

section \<open>The string commands of Redis (t\_string.c)\<close>

text \<open>
  The commands of \<^verbatim>\<open>src/t_string.c\<close> that edit or read a string value by offset or as a
  number: SETRANGE, GETRANGE, INCR/DECR/INCRBY/DECRBY, INCRBYFLOAT and APPEND. Each command is
  a function from the state before the call to the state after it. The state holds the object
  heap, the keyspace of the selected database, the counters of the server that the commands
  touch, and the client's argument vector and output.
\<close>

subsection \<open>C integers\<close>

text \<open>
  The integer types are those of an LP64 platform: \<^verbatim>\<open>long\<close> and \<^verbatim>\<open>long long\<close> are 64-bit
  two's complement, \<^verbatim>\<open>size_t\<close> is 64-bit unsigned and \<^verbatim>\<open>unsigned\<close> is 32-bit. Values are
  mathematical integers; every conversion that can change a value is written out.
\<close>

definition LLONG_MAX :: int where
  "LLONG_MAX = 9223372036854775807"

definition LLONG_MIN :: int where
  "LLONG_MIN = - 9223372036854775808"

definition is_llong :: "int \<Rightarrow> bool" where
  "is_llong v \<longleftrightarrow> LLONG_MIN \<le> v \<and> v \<le> LLONG_MAX"

text \<open>Conversion to \<^verbatim>\<open>size_t\<close> (and the result of \<^verbatim>\<open>size_t\<close> arithmetic).\<close>

definition to_size_t :: "int \<Rightarrow> int" where
  "to_size_t v = v mod 18446744073709551616"

text \<open>Conversion to \<^verbatim>\<open>long\<close> or \<^verbatim>\<open>long long\<close>.\<close>

definition to_llong :: "int \<Rightarrow> int" where
  "to_llong v = (v + 9223372036854775808) mod 18446744073709551616 - 9223372036854775808"

text \<open>The cast \<^verbatim>\<open>(unsigned)\<close>.\<close>

definition to_unsigned :: "int \<Rightarrow> int" where
  "to_unsigned v = v mod 4294967296"

subsection \<open>Objects\<close>

type_synonym sds = string
type_synonym addr = nat

datatype rtype = REDIS_STRING | REDIS_LIST | REDIS_SET | REDIS_ZSET | REDIS_HASH

datatype encoding = REDIS_ENCODING_RAW | REDIS_ENCODING_INT | REDIS_ENCODING_OTHER

text \<open>
  The fields \<^verbatim>\<open>encoding\<close> and \<^verbatim>\<open>ptr\<close> of an \<^verbatim>\<open>robj\<close> form a tagged union: a raw string
  points to an sds buffer, an integer-encoded string keeps a \<^verbatim>\<open>long\<close> in the pointer, and
  the payload of the other types is not looked at by the string commands.
\<close>

datatype payload = PtrSds sds | PtrLong int | PtrOther

record robj =
  otype :: rtype
  ptr :: payload
  refcount :: int

definition encoding :: "robj \<Rightarrow> encoding" where
  "encoding ob = (case ptr ob of
      PtrSds s \<Rightarrow> REDIS_ENCODING_RAW
    | PtrLong v \<Rightarrow> REDIS_ENCODING_INT
    | PtrOther \<Rightarrow> REDIS_ENCODING_OTHER)"

text \<open>
  \<^verbatim>\<open>o->ptr\<close> read as an sds, as the commands do with their arguments, which the request
  parser builds as raw strings. Modelled from the spec: \<^verbatim>\<open>sdslen\<close> and \<^verbatim>\<open>sdsempty\<close> (sds.h,
  sds.c) are the length of a buffer and the empty buffer.
\<close>

definition sdsOf :: "robj \<Rightarrow> sds" where
  "sdsOf ob = (case ptr ob of PtrSds s \<Rightarrow> s | PtrLong v \<Rightarrow> [] | PtrOther \<Rightarrow> [])"

definition sdslen :: "sds \<Rightarrow> int" where
  "sdslen s = int (length s)"

definition sdsempty :: sds where
  "sdsempty = []"

subsection \<open>Decimal text\<close>

definition digit_char :: "int \<Rightarrow> char" where
  "digit_char d = ''0123456789'' ! nat d"

function digits :: "int \<Rightarrow> string" where
  "digits n = (if n < 10 then [digit_char n] else digits (n div 10) @ [digit_char (n mod 10)])"
  by pat_completeness auto
termination
  by (relation "measure nat") auto

declare digits.simps [simp del]

text \<open>
  Modelled from the spec: \<^verbatim>\<open>ll2string\<close> (util.c) writes the canonical decimal text of a
  64-bit integer, with a leading minus sign for a negative one.
\<close>

definition ll2string :: "int \<Rightarrow> string" where
  "ll2string v = (if v < 0 then CHR ''-'' # digits (- v) else digits v)"

definition is_digit :: "char \<Rightarrow> bool" where
  "is_digit ch \<longleftrightarrow> ch \<in> set ''0123456789''"

definition digit_val :: "char \<Rightarrow> int" where
  "digit_val ch = of_char ch - 48"

fun parse_digits :: "int \<Rightarrow> string \<Rightarrow> int option" where
  "parse_digits acc [] = Some acc"
| "parse_digits acc (ch # cs) =
     (if is_digit ch then parse_digits (10 * acc + digit_val ch) cs else None)"

text \<open>
  Modelled from the spec: the text decoding inside \<^verbatim>\<open>getLongLongFromObject\<close> (object.c).
  The whole buffer must be a decimal integer, an optional minus sign and at least one digit,
  whose value is a signed 64-bit integer.
\<close>

definition string2ll :: "string \<Rightarrow> int option" where
  "string2ll s =
     (case s of
        [] \<Rightarrow> None
      | ch # cs \<Rightarrow>
          (case (if ch = CHR ''-''
                 then (if cs = [] then None else map_option uminus (parse_digits 0 cs))
                 else parse_digits 0 s) of
             None \<Rightarrow> None
           | Some v \<Rightarrow> if is_llong v then Some v else None))"

text \<open>
  Modelled from the spec: \<^verbatim>\<open>getLongLongFromObject\<close> (object.c). A missing object reads as
  0, an integer-encoded one as its integer, a raw one through its text.
\<close>

definition getLongLongFromObject :: "robj option \<Rightarrow> int option" where
  "getLongLongFromObject obj =
     (case obj of
        None \<Rightarrow> Some 0
      | Some ob \<Rightarrow>
          (case ptr ob of
             PtrSds s \<Rightarrow> string2ll s
           | PtrLong v \<Rightarrow> Some v
           | PtrOther \<Rightarrow> None))"

text \<open>
  Modelled from the spec: \<^verbatim>\<open>stringObjectLen\<close> (object.c), the logical length of a string
  object: the buffer's length, or the number of characters of the integer's decimal text.
\<close>

definition stringObjectLen :: "robj \<Rightarrow> int" where
  "stringObjectLen ob =
     (case ptr ob of
        PtrSds s \<Rightarrow> sdslen s
      | PtrLong v \<Rightarrow> int (length (ll2string v))
      | PtrOther \<Rightarrow> 0)"

subsection \<open>Replies\<close>

datatype reply =
    ReplyError string
  | ReplyWrongType
  | ReplyLongLong int
  | ReplyColonObj sds
  | ReplyBulk sds
  | ReplyOutOfBounds int int

text \<open>
  \<^verbatim>\<open>ReplyColonObj\<close> stands for the three calls that send \<^verbatim>\<open>shared.colon\<close>, an object and
  \<^verbatim>\<open>shared.crlf\<close>; \<^verbatim>\<open>shared.czero\<close> is \<^verbatim>\<open>ReplyLongLong 0\<close> and \<^verbatim>\<open>shared.emptybulk\<close> is
  \<^verbatim>\<open>ReplyBulk []\<close>. \<^verbatim>\<open>ReplyOutOfBounds start len\<close> records an access to \<^verbatim>\<open>len\<close> bytes from
  \<^verbatim>\<open>start\<close> that is not inside the buffer, by \<^verbatim>\<open>addReplyBulkCBuffer\<close> or by \<^verbatim>\<open>memcpy\<close>,
  which C leaves undefined.
\<close>

subsection \<open>State\<close>

record redis =
  heap :: "addr \<Rightarrow> robj"
  brk :: addr
  dict :: "sds \<Rightarrow> addr option"
  dirty :: int
  modified :: "sds list"
  argv :: "addr list"
  reply :: "reply list"

text \<open>
  \<^verbatim>\<open>heap\<close> maps an address to the object there; \<^verbatim>\<open>brk\<close> is the next address that
  allocation hands out, and a freed object is one whose reference count has reached 0.
  \<^verbatim>\<open>dict\<close> is \<^verbatim>\<open>c->db->dict\<close>, \<^verbatim>\<open>dirty\<close> is \<^verbatim>\<open>server.dirty\<close>, \<^verbatim>\<open>modified\<close> lists the
  keys passed to \<^verbatim>\<open>signalModifiedKey\<close>, \<^verbatim>\<open>argv\<close> and \<^verbatim>\<open>reply\<close> are the client's
  arguments and output.
\<close>

text \<open>
  Modelled from the spec: the reply functions of networking.c (\<^verbatim>\<open>addReply\<close>,
  \<^verbatim>\<open>addReplyError\<close>, \<^verbatim>\<open>addReplyLongLong\<close>) and the shared replies append to the client's
  output.
\<close>

definition addReply :: "redis \<Rightarrow> reply \<Rightarrow> redis" where
  "addReply c r = c\<lparr>reply := reply c @ [r]\<rparr>"

definition addReplyError :: "redis \<Rightarrow> string \<Rightarrow> redis" where
  "addReplyError c msg = addReply c (ReplyError msg)"

definition addReplyLongLong :: "redis \<Rightarrow> int \<Rightarrow> redis" where
  "addReplyLongLong c n = addReply c (ReplyLongLong n)"

definition shared_czero :: reply where
  "shared_czero = ReplyLongLong 0"

definition shared_emptybulk :: reply where
  "shared_emptybulk = ReplyBulk []"

text \<open>
  Modelled from the spec: the object and keyspace services of object.c and db.c
  (\<^verbatim>\<open>createObject\<close>, \<^verbatim>\<open>createStringObject\<close>, \<^verbatim>\<open>incrRefCount\<close>, \<^verbatim>\<open>decrRefCount\<close>,
  \<^verbatim>\<open>lookupKeyWrite\<close>, \<^verbatim>\<open>lookupKeyRead\<close>, \<^verbatim>\<open>dbAdd\<close>, \<^verbatim>\<open>dbOverwrite\<close>,
  \<^verbatim>\<open>signalModifiedKey\<close>, \<^verbatim>\<open>checkType\<close>). A new object is exclusively owned; adding and
  overwriting hand the value to the keyspace, and overwriting releases the keyspace's
  reference to the value it replaces. Expiration of keys is outside the string commands and
  is left out of the lookups. \<^verbatim>\<open>checkType\<close> replies with the wrong-type error and returns
  true when the object is of another type.
\<close>

definition createObject :: "redis \<Rightarrow> rtype \<Rightarrow> payload \<Rightarrow> addr \<times> redis" where
  "createObject c t p =
     (brk c, c\<lparr>heap := (heap c)(brk c := \<lparr>otype = t, ptr = p, refcount = 1\<rparr>),
              brk := Suc (brk c)\<rparr>)"

definition createStringObject :: "redis \<Rightarrow> sds \<Rightarrow> addr \<times> redis" where
  "createStringObject c s = createObject c REDIS_STRING (PtrSds s)"

definition incrRefCount :: "redis \<Rightarrow> addr \<Rightarrow> redis" where
  "incrRefCount c a = c\<lparr>heap := (heap c)(a := (heap c a)\<lparr>refcount := refcount (heap c a) + 1\<rparr>)\<rparr>"

definition decrRefCount :: "redis \<Rightarrow> addr \<Rightarrow> redis" where
  "decrRefCount c a = c\<lparr>heap := (heap c)(a := (heap c a)\<lparr>refcount := refcount (heap c a) - 1\<rparr>)\<rparr>"

definition lookupKeyWrite :: "redis \<Rightarrow> sds \<Rightarrow> addr option" where
  "lookupKeyWrite c key = dict c key"

definition lookupKeyRead :: "redis \<Rightarrow> sds \<Rightarrow> addr option" where
  "lookupKeyRead c key = dict c key"

definition dbAdd :: "redis \<Rightarrow> sds \<Rightarrow> addr \<Rightarrow> redis" where
  "dbAdd c key a = c\<lparr>dict := (dict c)(key \<mapsto> a)\<rparr>"

definition dbOverwrite :: "redis \<Rightarrow> sds \<Rightarrow> addr \<Rightarrow> redis" where
  "dbOverwrite c key a =
     (case dict c key of
        None \<Rightarrow> c\<lparr>dict := (dict c)(key \<mapsto> a)\<rparr>
      | Some old \<Rightarrow> decrRefCount (c\<lparr>dict := (dict c)(key \<mapsto> a)\<rparr>) old)"

definition signalModifiedKey :: "redis \<Rightarrow> sds \<Rightarrow> redis" where
  "signalModifiedKey c key = c\<lparr>modified := modified c @ [key]\<rparr>"

definition checkType :: "redis \<Rightarrow> robj \<Rightarrow> rtype \<Rightarrow> redis \<times> bool" where
  "checkType c ob t =
     (if otype ob \<noteq> t then (addReply c ReplyWrongType, True) else (c, False))"

text \<open>
  Modelled from the spec: \<^verbatim>\<open>getDecodedObject\<close> (object.c) returns a raw string object with
  the canonical bytes of its argument: the argument itself with one more reference when it is
  raw, a new object holding the decimal text otherwise.
\<close>

definition getDecodedObject :: "redis \<Rightarrow> addr \<Rightarrow> addr \<times> redis" where
  "getDecodedObject c a =
     (case ptr (heap c a) of
        PtrSds s \<Rightarrow> (a, incrRefCount c a)
      | PtrLong v \<Rightarrow> createStringObject c (ll2string v)
      | PtrOther \<Rightarrow> (a, incrRefCount c a))"

text \<open>The canonical bytes of a string object, as \<^verbatim>\<open>getDecodedObject\<close> materialises them.\<close>

definition decodedBytes :: "robj \<Rightarrow> sds" where
  "decodedBytes ob =
     (case ptr ob of PtrSds s \<Rightarrow> s | PtrLong v \<Rightarrow> ll2string v | PtrOther \<Rightarrow> [])"

text \<open>
  Modelled from the spec: \<^verbatim>\<open>getLongLongFromObjectOrReply\<close> and
  \<^verbatim>\<open>getLongFromObjectOrReply\<close> (object.c) reply with an error when the object does not
  decode; a \<^verbatim>\<open>long\<close> has the range of a \<^verbatim>\<open>long long\<close> here.
\<close>

definition getLongLongFromObjectOrReply :: "redis \<Rightarrow> robj option \<Rightarrow> redis + int" where
  "getLongLongFromObjectOrReply c obj =
     (case getLongLongFromObject obj of
        None \<Rightarrow> Inl (addReplyError c ''value is not an integer or out of range'')
      | Some v \<Rightarrow> Inr v)"

definition getLongFromObjectOrReply :: "redis \<Rightarrow> robj option \<Rightarrow> redis + int" where
  "getLongFromObjectOrReply c obj =
     (case getLongLongFromObjectOrReply c obj of
        Inl c1 \<Rightarrow> Inl c1
      | Inr v \<Rightarrow>
          if v < LLONG_MIN \<or> v > LLONG_MAX then Inl (addReplyError c ''value is out of range'')
          else Inr v)"

text \<open>
  Modelled from the spec: \<^verbatim>\<open>createStringObjectFromLongLong\<close> (object.c) materialises the
  integer as a fresh compact-encoded value.
\<close>

definition createStringObjectFromLongLong :: "redis \<Rightarrow> int \<Rightarrow> addr \<times> redis" where
  "createStringObjectFromLongLong c v = createObject c REDIS_STRING (PtrLong v)"

text \<open>
  Modelled from the spec: \<^verbatim>\<open>tryObjectEncoding\<close> (object.c) turns the object into the
  integer form when its bytes are exactly the canonical decimal text of a 64-bit integer, and
  leaves it raw otherwise.
\<close>

definition tryObjectEncoding :: "redis \<Rightarrow> addr \<Rightarrow> addr \<times> redis" where
  "tryObjectEncoding c a =
     (case ptr (heap c a) of
        PtrSds s \<Rightarrow>
          (case string2ll s of
             None \<Rightarrow> (a, c)
           | Some v \<Rightarrow>
               if ll2string v = s
               then (a, c\<lparr>heap := (heap c)(a := (heap c a)\<lparr>ptr := PtrLong v\<rparr>)\<rparr>)
               else (a, c))
      | PtrLong v \<Rightarrow> (a, c)
      | PtrOther \<Rightarrow> (a, c))"

text \<open>
  Modelled from the spec: \<^verbatim>\<open>rewriteClientCommandArgument\<close> (networking.c) replaces one
  argument of the command that will be propagated, taking a reference to the new argument and
  releasing the old one.
\<close>

definition rewriteClientCommandArgument :: "redis \<Rightarrow> nat \<Rightarrow> addr \<Rightarrow> redis" where
  "rewriteClientCommandArgument c i newval =
     (let oldval = argv c ! i;
          c1 = c\<lparr>argv := (argv c)[i := newval]\<rparr>;
          c2 = incrRefCount c1 newval
      in decrRefCount c2 oldval)"

text \<open>
  Modelled from the spec: \<^verbatim>\<open>sdsgrowzero\<close> (sds.c) grows the buffer to the given length
  and fills the new bytes with zero; a buffer that is already as long is returned as it is.
  \<^verbatim>\<open>sdscatlen\<close> appends bytes.
\<close>

definition sdsgrowzero :: "sds \<Rightarrow> int \<Rightarrow> sds" where
  "sdsgrowzero s n =
     (if n \<le> sdslen s then s else s @ replicate (nat (n - sdslen s)) (CHR 0x00))"

definition sdscatlen :: "sds \<Rightarrow> sds \<Rightarrow> sds" where
  "sdscatlen s t = s @ t"

text \<open>
  \<^verbatim>\<open>memcpy\<close> of a whole sds into a buffer at an offset. A copy that does not stay inside
  the buffer is undefined in C and is \<^verbatim>\<open>None\<close> here.
\<close>

definition memcpy :: "sds \<Rightarrow> int \<Rightarrow> sds \<Rightarrow> sds option" where
  "memcpy buf off src =
     (if 0 \<le> off \<and> off + sdslen src \<le> sdslen buf
      then Some (take (nat off) buf @ src @ drop (nat off + length src) buf)
      else None)"

text \<open>
  Modelled from the spec: \<^verbatim>\<open>addReplyBulkCBuffer\<close>, \<^verbatim>\<open>addReplyBulk\<close> and
  \<^verbatim>\<open>lookupKeyReadOrReply\<close> (networking.c, db.c). The first replies with \<^verbatim>\<open>len\<close> bytes of a
  buffer from \<^verbatim>\<open>start\<close>, the second with the canonical bytes of an object; the third looks
  a key up and sends the given reply when it is missing.
\<close>

definition addReplyBulkCBuffer :: "redis \<Rightarrow> sds \<Rightarrow> int \<Rightarrow> int \<Rightarrow> redis" where
  "addReplyBulkCBuffer c str start len =
     (if 0 \<le> start \<and> 0 \<le> len \<and> start + len \<le> sdslen str
      then addReply c (ReplyBulk (take (nat len) (drop (nat start) str)))
      else addReply c (ReplyOutOfBounds start len))"

definition addReplyBulk :: "redis \<Rightarrow> addr \<Rightarrow> redis" where
  "addReplyBulk c a = addReply c (ReplyBulk (decodedBytes (heap c a)))"

definition lookupKeyReadOrReply :: "redis \<Rightarrow> sds \<Rightarrow> reply \<Rightarrow> redis \<times> addr option" where
  "lookupKeyReadOrReply c key r =
     (case lookupKeyRead c key of None \<Rightarrow> (addReply c r, None) | Some a \<Rightarrow> (c, Some a))"

subsection \<open>The commands\<close>

datatype status = REDIS_OK | REDIS_ERR

definition checkStringLength :: "redis \<Rightarrow> int \<Rightarrow> redis \<times> status" where
  "checkStringLength c sz =
     (if sz > 512 * 1024 * 1024
      then (addReplyError c ''string exceeds maximum allowed size (512MB)'', REDIS_ERR)
      else (c, REDIS_OK))"

text \<open>
  The copy made of a shared or integer-encoded value before a destructive edit (the bodies
  of the two identical \<^verbatim>\<open>if (o->refcount != 1 || o->encoding != REDIS_ENCODING_RAW)\<close>
  blocks of SETRANGE and APPEND).
\<close>

definition unshareStringValue :: "redis \<Rightarrow> sds \<Rightarrow> addr \<Rightarrow> addr \<times> redis" where
  "unshareStringValue c key a =
     (if refcount (heap c a) \<noteq> 1 \<or> encoding (heap c a) \<noteq> REDIS_ENCODING_RAW
      then
        (let (decoded, c1) = getDecodedObject c a;
             (a', c2) = createStringObject c1 (sdsOf (heap c1 decoded));
             c3 = decrRefCount c2 decoded;
             c4 = dbOverwrite c3 key a'
         in (a', c4))
      else (a, c))"

text \<open>The last part of SETRANGE, from the test \<^verbatim>\<open>sdslen(value) > 0\<close> on.\<close>

definition setrangeWrite :: "redis \<Rightarrow> sds \<Rightarrow> addr \<Rightarrow> int \<Rightarrow> sds \<Rightarrow> redis" where
  "setrangeWrite c key a offset val =
     (if sdslen val > 0
      then
        (let grown = sdsgrowzero (sdsOf (heap c a)) (to_size_t (offset + sdslen val))
         in case memcpy grown offset val of
              None \<Rightarrow> addReply c (ReplyOutOfBounds offset (sdslen val))
            | Some buf \<Rightarrow>
                (let c1 = c\<lparr>heap := (heap c)(a := (heap c a)\<lparr>ptr := PtrSds buf\<rparr>)\<rparr>;
                     c2 = signalModifiedKey c1 key;
                     c3 = c2\<lparr>dirty := dirty c2 + 1\<rparr>
                 in addReplyLongLong c3 (to_llong (sdslen (sdsOf (heap c3 a))))))
      else addReplyLongLong c (to_llong (sdslen (sdsOf (heap c a)))))"

definition setrangeCommand :: "redis \<Rightarrow> redis" where
  "setrangeCommand c =
     (let val = sdsOf (heap c (argv c ! 3));
          key = sdsOf (heap c (argv c ! 1))
      in case getLongFromObjectOrReply c (Some (heap c (argv c ! 2))) of
           Inl c1 \<Rightarrow> c1
         | Inr offset \<Rightarrow>
             if offset < 0 then addReplyError c ''offset is out of range''
             else
               (case lookupKeyWrite c key of
                  None \<Rightarrow>
                    if sdslen val = 0 then addReply c shared_czero
                    else
                      (case checkStringLength c (to_llong (to_size_t (offset + sdslen val))) of
                         (c1, REDIS_ERR) \<Rightarrow> c1
                       | (c1, REDIS_OK) \<Rightarrow>
                           (let (a, c2) = createObject c1 REDIS_STRING (PtrSds sdsempty);
                                c3 = dbAdd c2 key a
                            in setrangeWrite c3 key a offset val))
                | Some a \<Rightarrow>
                    (case checkType c (heap c a) REDIS_STRING of
                       (c1, True) \<Rightarrow> c1
                     | (c1, False) \<Rightarrow>
                         (let olen = stringObjectLen (heap c1 a)
                          in if sdslen val = 0 then addReplyLongLong c1 (to_llong olen)
                             else
                               (case checkStringLength c1
                                       (to_llong (to_size_t (offset + sdslen val))) of
                                  (c2, REDIS_ERR) \<Rightarrow> c2
                                | (c2, REDIS_OK) \<Rightarrow>
                                    (let (a', c3) = unshareStringValue c2 key a
                                     in setrangeWrite c3 key a' offset val))))))"

definition getrangeCommand :: "redis \<Rightarrow> redis" where
  "getrangeCommand c =
     (let key = sdsOf (heap c (argv c ! 1))
      in case getLongFromObjectOrReply c (Some (heap c (argv c ! 2))) of
           Inl c1 \<Rightarrow> c1
         | Inr start \<Rightarrow>
             (case getLongFromObjectOrReply c (Some (heap c (argv c ! 3))) of
                Inl c1 \<Rightarrow> c1
              | Inr end' \<Rightarrow>
                  (case lookupKeyReadOrReply c key shared_emptybulk of
                     (c1, None) \<Rightarrow> c1
                   | (c1, Some a) \<Rightarrow>
                       (case checkType c1 (heap c1 a) REDIS_STRING of
                          (c2, True) \<Rightarrow> c2
                        | (c2, False) \<Rightarrow>
                            (let str = (case ptr (heap c2 a) of
                                          PtrLong v \<Rightarrow> ll2string v
                                        | PtrSds s \<Rightarrow> s
                                        | PtrOther \<Rightarrow> []);
                                 strlen = sdslen str;
                                 start1 = (if start < 0 then to_llong (to_size_t (strlen + start))
                                           else start);
                                 end1 = (if end' < 0 then to_llong (to_size_t (strlen + end'))
                                         else end');
                                 start2 = (if start1 < 0 then 0 else start1);
                                 end2 = (if end1 < 0 then 0 else end1);
                                 end3 = (if to_unsigned end2 \<ge> strlen
                                         then to_llong (to_size_t (strlen - 1)) else end2)
                             in if start2 > end3 then addReply c2 shared_emptybulk
                                else addReplyBulkCBuffer c2 str start2
                                       (to_size_t (end3 - start2 + 1)))))))"

definition incrDecrCommand :: "redis \<Rightarrow> int \<Rightarrow> redis" where
  "incrDecrCommand c incr =
     (let key = sdsOf (heap c (argv c ! 1));
          obj = lookupKeyWrite c key
      in case (case obj of
                 None \<Rightarrow> (c, False)
               | Some a \<Rightarrow> checkType c (heap c a) REDIS_STRING) of
           (c1, True) \<Rightarrow> c1
         | (c1, False) \<Rightarrow>
             (case getLongLongFromObjectOrReply c1 (map_option (heap c1) obj) of
                Inl c2 \<Rightarrow> c2
              | Inr oldvalue \<Rightarrow>
                  if (incr < 0 \<and> oldvalue < 0 \<and> incr < LLONG_MIN - oldvalue) \<or>
                     (incr > 0 \<and> oldvalue > 0 \<and> incr > LLONG_MAX - oldvalue)
                  then addReplyError c1 ''increment or decrement would overflow''
                  else
                    (let val = to_llong (oldvalue + incr);
                         (new, c2) = createStringObjectFromLongLong c1 val;
                         c3 = (case obj of
                                 Some a \<Rightarrow> dbOverwrite c2 key new
                               | None \<Rightarrow> dbAdd c2 key new);
                         c4 = signalModifiedKey c3 key;
                         c5 = c4\<lparr>dirty := dirty c4 + 1\<rparr>
                     in addReply c5 (ReplyColonObj (decodedBytes (heap c5 new))))))"

definition incrCommand :: "redis \<Rightarrow> redis" where
  "incrCommand c = incrDecrCommand c 1"

definition decrCommand :: "redis \<Rightarrow> redis" where
  "decrCommand c = incrDecrCommand c (- 1)"

definition incrbyCommand :: "redis \<Rightarrow> redis" where
  "incrbyCommand c =
     (case getLongLongFromObjectOrReply c (Some (heap c (argv c ! 2))) of
        Inl c1 \<Rightarrow> c1
      | Inr incr \<Rightarrow> incrDecrCommand c incr)"

definition decrbyCommand :: "redis \<Rightarrow> redis" where
  "decrbyCommand c =
     (case getLongLongFromObjectOrReply c (Some (heap c (argv c ! 2))) of
        Inl c1 \<Rightarrow> c1
      | Inr incr \<Rightarrow> incrDecrCommand c (to_llong (- incr)))"

definition appendCommand :: "redis \<Rightarrow> redis" where
  "appendCommand c =
     (let key = sdsOf (heap c (argv c ! 1))
      in case lookupKeyWrite c key of
           None \<Rightarrow>
             (let (a2, c1) = tryObjectEncoding c (argv c ! 2);
                  c2 = c1\<lparr>argv := (argv c1)[2 := a2]\<rparr>;
                  c3 = dbAdd c2 key (argv c2 ! 2);
                  c4 = incrRefCount c3 (argv c3 ! 2);
                  totlen = stringObjectLen (heap c4 (argv c4 ! 2));
                  c5 = signalModifiedKey c4 key;
                  c6 = c5\<lparr>dirty := dirty c5 + 1\<rparr>
              in addReplyLongLong c6 (to_llong totlen))
         | Some a \<Rightarrow>
             (case checkType c (heap c a) REDIS_STRING of
                (c1, True) \<Rightarrow> c1
              | (c1, False) \<Rightarrow>
                  (let append = argv c1 ! 2;
                       totlen = to_size_t (stringObjectLen (heap c1 a)
                                           + sdslen (sdsOf (heap c1 append)))
                   in case checkStringLength c1 (to_llong totlen) of
                        (c2, REDIS_ERR) \<Rightarrow> c2
                      | (c2, REDIS_OK) \<Rightarrow>
                          (let (a', c3) = unshareStringValue c2 key a;
                               c4 = c3\<lparr>heap := (heap c3)(a' := (heap c3 a')
                                      \<lparr>ptr := PtrSds (sdscatlen (sdsOf (heap c3 a'))
                                                         (sdsOf (heap c3 append)))\<rparr>)\<rparr>;
                               totlen' = sdslen (sdsOf (heap c4 a'));
                               c5 = signalModifiedKey c4 key;
                               c6 = c5\<lparr>dirty := dirty c5 + 1\<rparr>
                           in addReplyLongLong c6 (to_llong totlen')))))"

subsection \<open>INCRBYFLOAT\<close>

text \<open>
  The arithmetic of \<^verbatim>\<open>long double\<close> is a parameter of the command: the type of the values
  and the library routines that the command and its helpers call (\<^verbatim>\<open>strtold\<close>, the
  conversion from \<^verbatim>\<open>long\<close>, addition, \<^verbatim>\<open>isnan\<close>, \<^verbatim>\<open>isinf\<close> and the formatting done by
  \<^verbatim>\<open>createStringObjectFromLongDouble\<close>).
\<close>

record 'ld longdouble =
  strtold :: "sds \<Rightarrow> 'ld option"
  ld_of_long :: "int \<Rightarrow> 'ld"
  ld_add :: "'ld \<Rightarrow> 'ld \<Rightarrow> 'ld"
  ld_isnan :: "'ld \<Rightarrow> bool"
  ld_isinf :: "'ld \<Rightarrow> bool"
  ld_format :: "'ld \<Rightarrow> sds"

text \<open>
  Modelled from the spec: \<^verbatim>\<open>getLongDoubleFromObject\<close> (object.c). A missing object reads
  as 0; a raw one must parse, as a whole, as a finite number.
\<close>

definition getLongDoubleFromObject :: "'ld longdouble \<Rightarrow> robj option \<Rightarrow> 'ld option" where
  "getLongDoubleFromObject ld obj =
     (case obj of
        None \<Rightarrow> Some (ld_of_long ld 0)
      | Some ob \<Rightarrow>
          (case ptr ob of
             PtrSds s \<Rightarrow>
               (case strtold ld s of
                  None \<Rightarrow> None
                | Some v \<Rightarrow> if ld_isnan ld v \<or> ld_isinf ld v then None else Some v)
           | PtrLong v \<Rightarrow> Some (ld_of_long ld v)
           | PtrOther \<Rightarrow> None))"

definition getLongDoubleFromObjectOrReply ::
    "'ld longdouble \<Rightarrow> redis \<Rightarrow> robj option \<Rightarrow> redis + 'ld" where
  "getLongDoubleFromObjectOrReply ld c obj =
     (case getLongDoubleFromObject ld obj of
        None \<Rightarrow> Inl (addReplyError c ''value is not a valid float'')
      | Some v \<Rightarrow> Inr v)"

text \<open>
  \<^verbatim>\<open>createStringObjectFromLongDouble\<close> (object.c) makes a raw string object of the formatted
  number.
\<close>

definition createStringObjectFromLongDouble ::
    "'ld longdouble \<Rightarrow> redis \<Rightarrow> 'ld \<Rightarrow> addr \<times> redis" where
  "createStringObjectFromLongDouble ld c v = createStringObject c (ld_format ld v)"

definition incrbyfloatCommand :: "'ld longdouble \<Rightarrow> redis \<Rightarrow> redis" where
  "incrbyfloatCommand ld c =
     (let key = sdsOf (heap c (argv c ! 1));
          obj = lookupKeyWrite c key
      in case (case obj of
                 None \<Rightarrow> (c, False)
               | Some a \<Rightarrow> checkType c (heap c a) REDIS_STRING) of
           (c1, True) \<Rightarrow> c1
         | (c1, False) \<Rightarrow>
             (case getLongDoubleFromObjectOrReply ld c1 (map_option (heap c1) obj) of
                Inl c2 \<Rightarrow> c2
              | Inr val \<Rightarrow>
                  (case getLongDoubleFromObjectOrReply ld c1 (Some (heap c1 (argv c1 ! 2))) of
                     Inl c2 \<Rightarrow> c2
                   | Inr incr \<Rightarrow>
                       (let val' = ld_add ld val incr
                        in if ld_isnan ld val' \<or> ld_isinf ld val'
                           then addReplyError c1 ''increment would produce NaN or Infinity''
                           else
                             (let (new, c2) = createStringObjectFromLongDouble ld c1 val';
                                  c3 = (case obj of
                                          Some a \<Rightarrow> dbOverwrite c2 key new
                                        | None \<Rightarrow> dbAdd c2 key new);
                                  c4 = signalModifiedKey c3 key;
                                  c5 = c4\<lparr>dirty := dirty c4 + 1\<rparr>;
                                  c6 = addReplyBulk c5 new;
                                  (aux, c7) = createStringObject c6 ''SET'';
                                  c8 = rewriteClientCommandArgument c7 0 aux;
                                  c9 = decrRefCount c8 aux
                              in rewriteClientCommandArgument c9 2 new)))))"

text \<open>
  An instance of the interface on whole numbers, for running the command: a sum beyond the
  64-bit range is infinite.
\<close>

datatype wholeld = Finite int | Infinite | NotANumber

definition whole_add :: "wholeld \<Rightarrow> wholeld \<Rightarrow> wholeld" where
  "whole_add x y =
     (case (x, y) of
        (Finite a, Finite b) \<Rightarrow> if is_llong (a + b) then Finite (a + b) else Infinite
      | (NotANumber, _) \<Rightarrow> NotANumber
      | (_, NotANumber) \<Rightarrow> NotANumber
      | (_, _) \<Rightarrow> Infinite)"

definition whole_format :: "wholeld \<Rightarrow> sds" where
  "whole_format x = (case x of Finite a \<Rightarrow> ll2string a | Infinite \<Rightarrow> ''inf'' | NotANumber \<Rightarrow> ''nan'')"

definition whole_longdouble :: "wholeld longdouble" where
  "whole_longdouble =
     \<lparr>strtold = (\<lambda>s. map_option Finite (string2ll s)),
      ld_of_long = Finite,
      ld_add = whole_add,
      ld_isnan = (\<lambda>x. x = NotANumber),
      ld_isinf = (\<lambda>x. x = Infinite),
      ld_format = whole_format\<rparr>"

subsection \<open>What a client can observe of a key\<close>

text \<open>The canonical bytes stored under a key, if any.\<close>

definition stringValue :: "redis \<Rightarrow> sds \<Rightarrow> sds option" where
  "stringValue c key = map_option (\<lambda>a. decodedBytes (heap c a)) (dict c key)"

subsection \<open>Predicates of the statements\<close>

text \<open>
  \<^verbatim>\<open>writtenAt old n d buf\<close>: the buffer \<^verbatim>\<open>buf\<close> is \<^verbatim>\<open>old\<close>, grown with zero bytes where it
  was shorter than \<^verbatim>\<open>n + length d\<close>, with \<^verbatim>\<open>d\<close> written over the bytes from \<^verbatim>\<open>n\<close> on.
\<close>

definition writtenAt :: "sds \<Rightarrow> nat \<Rightarrow> sds \<Rightarrow> sds \<Rightarrow> bool" where
  "writtenAt old n d buf \<longleftrightarrow>
     length buf = max (length old) (n + length d) \<and>
     (\<forall>i<length buf. buf ! i =
        (if n \<le> i \<and> i < n + length d then d ! (i - n)
         else if i < length old then old ! i else CHR 0x00))"

text \<open>
  An allocated string object, raw or integer-encoded, whose length fits a \<^verbatim>\<open>long long\<close>;
  and a key that is missing or bound to such an object, which is what the type guard of the
  commands lets through.
\<close>

definition storedString :: "redis \<Rightarrow> addr \<Rightarrow> bool" where
  "storedString c a \<longleftrightarrow>
     a < brk c \<and> otype (heap c a) = REDIS_STRING \<and> ptr (heap c a) \<noteq> PtrOther \<and>
     stringObjectLen (heap c a) \<le> LLONG_MAX"

definition stringOrMissing :: "redis \<Rightarrow> sds \<Rightarrow> bool" where
  "stringOrMissing c key = (case dict c key of None \<Rightarrow> True | Some a \<Rightarrow> storedString c a)"

text \<open>
  The two outcomes of a destructive edit of the value at address \<^verbatim>\<open>a\<close>, between the state
  \<^verbatim>\<open>c\<close> before the command and the state \<^verbatim>\<open>c'\<close> after it. In place: the keyspace and
  the allocator are as before, the object is still an exclusively owned raw string, and no
  other object has changed. On a copy: the key is bound to an object allocated by the call,
  exclusively owned and raw, while the object at \<^verbatim>\<open>a\<close> keeps its payload (so its bytes
  and its length) and has lost the reference of the keyspace, and no object that existed
  before has a changed payload.
\<close>

definition editedInPlace :: "redis \<Rightarrow> redis \<Rightarrow> addr \<Rightarrow> bool" where
  "editedInPlace c c' a \<longleftrightarrow>
     dict c' = dict c \<and> brk c' = brk c \<and>
     refcount (heap c' a) = 1 \<and> otype (heap c' a) = REDIS_STRING \<and>
     encoding (heap c' a) = REDIS_ENCODING_RAW \<and>
     (\<forall>b. b \<noteq> a \<longrightarrow> heap c' b = heap c b)"

definition editedOnCopy :: "redis \<Rightarrow> redis \<Rightarrow> sds \<Rightarrow> addr \<Rightarrow> bool" where
  "editedOnCopy c c' key a \<longleftrightarrow>
     (\<exists>a'. dict c' = (dict c)(key \<mapsto> a') \<and> a' \<noteq> a \<and> brk c \<le> a' \<and> a' < brk c' \<and>
           refcount (heap c' a') = 1 \<and> otype (heap c' a') = REDIS_STRING \<and>
           encoding (heap c' a') = REDIS_ENCODING_RAW) \<and>
     ptr (heap c' a) = ptr (heap c a) \<and>
     decodedBytes (heap c' a) = decodedBytes (heap c a) \<and>
     stringObjectLen (heap c' a) = stringObjectLen (heap c a) \<and>
     refcount (heap c' a) = refcount (heap c a) - 1 \<and>
     (\<forall>b<brk c. ptr (heap c' b) = ptr (heap c b))"

text \<open>
  The range that GETRANGE is specified to return, in the words of the specification:
  negative indices count from the end and are floored at 0, an end index at or beyond the
  length is clamped to the last byte, and the result is empty for the empty string or when
  the start is beyond the end.
\<close>

definition spec_read_range :: "sds \<Rightarrow> int \<Rightarrow> int \<Rightarrow> sds" where
  "spec_read_range str start end' =
     (let n = int (length str);
          s1 = (if start < 0 then max 0 (n + start) else start);
          e1 = (if end' < 0 then max 0 (n + end') else end');
          e2 = (if e1 \<ge> n then n - 1 else e1)
      in if n = 0 \<or> s1 > e2 then [] else take (nat (e2 - s1 + 1)) (drop (nat s1) str))"

subsection \<open>Example requests\<close>

text \<open>
  \<^verbatim>\<open>request args\<close> is a client that has just read a request into fresh raw string objects,
  on an empty keyspace; \<^verbatim>\<open>withKey\<close> binds a key to one more object.
\<close>

definition rawObject :: "sds \<Rightarrow> int \<Rightarrow> robj" where
  "rawObject s n = \<lparr>otype = REDIS_STRING, ptr = PtrSds s, refcount = n\<rparr>"

definition intObject :: "int \<Rightarrow> int \<Rightarrow> robj" where
  "intObject v n = \<lparr>otype = REDIS_STRING, ptr = PtrLong v, refcount = n\<rparr>"

definition request :: "sds list \<Rightarrow> redis" where
  "request args =
     \<lparr>heap = (\<lambda>a. if a < length args then rawObject (args ! a) 1 else rawObject [] 0),
      brk = length args, dict = Map.empty, dirty = 0, modified = [],
      argv = [0..<length args], reply = []\<rparr>"

definition withKey :: "redis \<Rightarrow> sds \<Rightarrow> robj \<Rightarrow> redis" where
  "withKey c key ob =
     c\<lparr>heap := (heap c)(brk c := ob), brk := Suc (brk c), dict := (dict c)(key \<mapsto> brk c)\<rparr>"

definition setrange_gap :: redis where
  "setrange_gap = request [''SETRANGE'', ''k'', ''5'', ''Hi'']"

definition setrange_empty_present :: redis where
  "setrange_empty_present =
     withKey (request [''SETRANGE'', ''k'', ''3'', '''']) ''k'' (rawObject ''Hello'' 1)"

definition setrange_empty_missing :: redis where
  "setrange_empty_missing = request [''SETRANGE'', ''k'', ''1099511627776'', '''']"

definition incr_example :: redis where
  "incr_example = withKey (request [''INCRBY'', ''n'', ''1'']) ''n'' (intObject 41 1)"

definition incr_overflow_example :: redis where
  "incr_overflow_example =
     withKey (request [''INCR'', ''n'']) ''n'' (rawObject ''9223372036854775807'' 1)"

definition incrbyfloat_example :: redis where
  "incrbyfloat_example =
     withKey (request [''INCRBYFLOAT'', ''x'', ''5'']) ''x'' (rawObject ''37'' 1)"

definition incrbyfloat_overflow_example :: redis where
  "incrbyfloat_overflow_example =
     withKey (request [''INCRBYFLOAT'', ''x'', ''1'']) ''x''
       (rawObject ''9223372036854775807'' 1)"

text \<open>The command that will be propagated: the bytes of the argument vector.\<close>

definition propagated :: "redis \<Rightarrow> sds list" where
  "propagated c = map (\<lambda>a. decodedBytes (heap c a)) (argv c)"

definition setrange_shared :: redis where
  "setrange_shared =
     withKey (request [''SETRANGE'', ''k'', ''1'', ''a'']) ''k'' (rawObject ''Hello'' 2)"

definition append_exclusive :: redis where
  "append_exclusive = withKey (request [''APPEND'', ''k'', ''!'']) ''k'' (rawObject ''Hello'' 1)"

definition append_example :: redis where
  "append_example =
     withKey (request [''APPEND'', ''k'', '' World'']) ''k'' (rawObject ''Hello'' 1)"

definition setrange_at_end :: redis where
  "setrange_at_end =
     withKey (request [''SETRANGE'', ''k'', ''5'', '' World'']) ''k'' (rawObject ''Hello'' 1)"

definition append_missing_example :: redis where
  "append_missing_example = request [''APPEND'', ''k'', ''123'']"

definition setrange_missing_example :: redis where
  "setrange_missing_example = request [''SETRANGE'', ''k'', ''0'', ''123'']"

definition getrange_wrap :: redis where
  "getrange_wrap =
     withKey (request [''GETRANGE'', ''k'', ''0'', ''4294967296'']) ''k''
       (rawObject ''Hello World'' 1)"

definition getrange_hello :: "sds \<Rightarrow> sds \<Rightarrow> redis" where
  "getrange_hello start end' =
     withKey (request [''GETRANGE'', ''k'', start, end']) ''k'' (rawObject ''Hello World'' 1)"

definition setrange_wrap :: redis where
  "setrange_wrap = request [''SETRANGE'', ''k'', ''9223372036854775807'', ''a'']"

definition setrange_wrap_existing :: redis where
  "setrange_wrap_existing =
     withKey (request [''SETRANGE'', ''k'', ''9223372036854775807'', ''a'']) ''k''
       (rawObject ''x'' 1)"

section \<open>Lemmas about the model\<close>

subsection \<open>Conversions and helpers\<close>

lemma to_size_t_id: "0 \<le> v \<Longrightarrow> v < 18446744073709551616 \<Longrightarrow> to_size_t v = v"
  by (simp add: to_size_t_def)

lemma to_llong_id: "is_llong v \<Longrightarrow> to_llong v = v"
  by (simp add: to_llong_def is_llong_def LLONG_MIN_def LLONG_MAX_def)

lemma size_arg_id:
  "0 \<le> n \<Longrightarrow> n \<le> LLONG_MAX \<Longrightarrow> to_llong (to_size_t n) = n"
  by (simp add: to_size_t_id to_llong_id is_llong_def LLONG_MAX_def LLONG_MIN_def)

lemma getLongFromObjectOrReply_ok:
  "getLongLongFromObject obj = Some v \<Longrightarrow> is_llong v \<Longrightarrow> getLongFromObjectOrReply c obj = Inr v"
  by (simp add: getLongFromObjectOrReply_def getLongLongFromObjectOrReply_def is_llong_def)

lemma checkStringLength_pass:
  "sz \<le> 512 * 1024 * 1024 \<Longrightarrow> checkStringLength c sz = (c, REDIS_OK)"
  by (simp add: checkStringLength_def)

lemma checkStringLength_fail:
  "sz > 512 * 1024 * 1024 \<Longrightarrow>
     checkStringLength c sz =
       (c\<lparr>reply := reply c @ [ReplyError ''string exceeds maximum allowed size (512MB)'']\<rparr>,
        REDIS_ERR)"
  by (simp add: checkStringLength_def addReplyError_def addReply_def)

subsection \<open>Growing a buffer and copying into it\<close>

lemma sdsgrowzero_length:
  "0 \<le> n \<Longrightarrow> length (sdsgrowzero s n) = max (length s) (nat n)"
  by (auto simp: sdsgrowzero_def sdslen_def)

lemma sdsgrowzero_nth:
  "i < length (sdsgrowzero s n) \<Longrightarrow>
     sdsgrowzero s n ! i = (if i < length s then s ! i else CHR 0x00)"
  by (auto simp: sdsgrowzero_def sdslen_def nth_append)

lemma splice_nth:
  assumes "n + length d \<le> length g" and "i < length g"
  shows "(take n g @ d @ drop (n + length d) g) ! i =
           (if n \<le> i \<and> i < n + length d then d ! (i - n) else g ! i)"
  using assms by (auto simp: nth_append min_def add.commute)

lemma grow_copy:
  assumes "0 \<le> offset" and "offset + int (length d) < 18446744073709551616"
  shows "\<exists>buf. memcpy (sdsgrowzero old (to_size_t (offset + sdslen d))) offset d = Some buf \<and>
           writtenAt old (nat offset) d buf"
proof -
  let ?n = "offset + sdslen d"
  let ?g = "sdsgrowzero old ?n"
  let ?buf = "take (nat offset) ?g @ d @ drop (nat offset + length d) ?g"
  have n: "to_size_t ?n = ?n" "0 \<le> ?n"
    using assms by (simp_all add: to_size_t_id sdslen_def)
  have lg: "length ?g = max (length old) (nat offset + length d)"
    using assms n by (simp add: sdsgrowzero_length sdslen_def nat_add_distrib)
  then have fits: "nat offset + length d \<le> length ?g" by simp
  then have m: "memcpy (sdsgrowzero old (to_size_t ?n)) offset d = Some ?buf"
    using assms n by (simp add: memcpy_def sdslen_def)
  have lb: "length ?buf = length ?g" using fits by simp
  have nth: "?buf ! i =
              (if nat offset \<le> i \<and> i < nat offset + length d then d ! (i - nat offset)
               else if i < length old then old ! i else CHR 0x00)" if "i < length ?buf" for i
  proof -
    from that lb have i: "i < length ?g" by simp
    show ?thesis
      using splice_nth [OF fits i] sdsgrowzero_nth [OF i] by simp
  qed
  show ?thesis unfolding writtenAt_def using m lb lg nth by (intro exI [of _ ?buf]) simp
qed

lemma setrangeWrite_ok:
  assumes "ptr (heap c a) = PtrSds old" and "d \<noteq> []" and "0 \<le> offset"
    and "offset + int (length d) \<le> LLONG_MAX" and "int (length old) \<le> LLONG_MAX"
  shows "\<exists>buf. writtenAt old (nat offset) d buf \<and>
           setrangeWrite c key a offset d =
             c\<lparr>heap := (heap c)(a := (heap c a)\<lparr>ptr := PtrSds buf\<rparr>),
               dirty := dirty c + 1,
               modified := modified c @ [key],
               reply := reply c @ [ReplyLongLong (int (length buf))]\<rparr>"
proof -
  from assms have "offset + int (length d) < 18446744073709551616"
    by (simp add: LLONG_MAX_def)
  from grow_copy [OF assms(3) this, of old] obtain buf where
    m: "memcpy (sdsgrowzero old (to_size_t (offset + sdslen d))) offset d = Some buf"
    and w: "writtenAt old (nat offset) d buf" by blast
  from w assms have "int (length buf) \<le> LLONG_MAX"
    by (auto simp: writtenAt_def max_def)
  then have l: "to_llong (int (length buf)) = int (length buf)"
    by (simp add: to_llong_id is_llong_def LLONG_MIN_def)
  show ?thesis
    using assms(1,2) m w l
    by (intro exI [of _ buf])
       (simp add: setrangeWrite_def sdslen_def sdsOf_def Let_def signalModifiedKey_def
          addReplyLongLong_def addReply_def)
qed

subsection \<open>The copy made before a destructive edit\<close>

lemma unshare_exclusive:
  "refcount (heap c a) = 1 \<Longrightarrow> ptr (heap c a) = PtrSds s \<Longrightarrow> unshareStringValue c key a = (a, c)"
  by (simp add: unshareStringValue_def encoding_def)

lemma unshare_copy:
  assumes "refcount (heap c a) \<noteq> 1 \<or> encoding (heap c a) \<noteq> REDIS_ENCODING_RAW"
    and "ptr (heap c a) \<noteq> PtrOther" and "dict c key = Some a" and "a < brk c"
    and "unshareStringValue c key a = (a', c')"
  shows "brk c \<le> a'" and "brk c < brk c'"
    and "heap c' a' = \<lparr>otype = REDIS_STRING, ptr = PtrSds (decodedBytes (heap c a)), refcount = 1\<rparr>"
    and "dict c' = (dict c)(key \<mapsto> a')"
    and "\<forall>b<brk c. ptr (heap c' b) = ptr (heap c b) \<and> otype (heap c' b) = otype (heap c b)"
    and "refcount (heap c' a) = refcount (heap c a) - 1"
    and "reply c' = reply c" and "dirty c' = dirty c" and "modified c' = modified c"
    and "argv c' = argv c"
  using assms
  by (cases "ptr (heap c a)";
      auto simp: unshareStringValue_def encoding_def getDecodedObject_def incrRefCount_def
        decrRefCount_def createStringObject_def createObject_def dbOverwrite_def sdsOf_def
        decodedBytes_def Let_def split: if_splits)+

subsection \<open>The paths of SETRANGE\<close>

lemma setrange_missing:
  assumes "ptr (heap c (argv c ! 1)) = PtrSds key"
    and "getLongLongFromObject (Some (heap c (argv c ! 2))) = Some offset" and "is_llong offset"
    and "ptr (heap c (argv c ! 3)) = PtrSds d"
    and "0 \<le> offset" and "d \<noteq> []" and "offset + int (length d) \<le> 512 * 1024 * 1024"
    and "dict c key = None"
  shows "setrangeCommand c =
           setrangeWrite (dbAdd (snd (createObject c REDIS_STRING (PtrSds []))) key (brk c))
             key (brk c) offset d"
proof -
  have "to_llong (to_size_t (offset + sdslen d)) = offset + sdslen d"
    using assms by (intro size_arg_id) (simp_all add: sdslen_def LLONG_MAX_def)
  then show ?thesis using assms
    by (simp add: setrangeCommand_def getLongFromObjectOrReply_ok sdsOf_def lookupKeyWrite_def
        checkStringLength_pass sdslen_def createObject_def sdsempty_def)
qed

lemma setrange_existing:
  assumes "ptr (heap c (argv c ! 1)) = PtrSds key"
    and "getLongLongFromObject (Some (heap c (argv c ! 2))) = Some offset" and "is_llong offset"
    and "ptr (heap c (argv c ! 3)) = PtrSds d"
    and "0 \<le> offset" and "d \<noteq> []" and "offset + int (length d) \<le> 512 * 1024 * 1024"
    and "dict c key = Some a" and "otype (heap c a) = REDIS_STRING"
  shows "setrangeCommand c =
           setrangeWrite (snd (unshareStringValue c key a)) key
             (fst (unshareStringValue c key a)) offset d"
proof -
  have "to_llong (to_size_t (offset + sdslen d)) = offset + sdslen d"
    using assms by (intro size_arg_id) (simp_all add: sdslen_def LLONG_MAX_def)
  then show ?thesis using assms
    by (simp add: setrangeCommand_def getLongFromObjectOrReply_ok sdsOf_def lookupKeyWrite_def
        checkStringLength_pass sdslen_def checkType_def case_prod_beta)
qed

subsection \<open>The overflow test of the integer increment\<close>

lemma overflow_test_exact:
  assumes "is_llong current" and "is_llong incr"
  shows "((incr < 0 \<and> current < 0 \<and> incr < LLONG_MIN - current) \<or>
          (incr > 0 \<and> current > 0 \<and> incr > LLONG_MAX - current))
         \<longleftrightarrow> \<not> is_llong (current + incr)"
  using assms by (auto simp: is_llong_def LLONG_MIN_def LLONG_MAX_def)

lemma guard_string_or_missing:
  "stringOrMissing c key \<Longrightarrow>
     (case dict c key of None \<Rightarrow> (c, False) | Some a \<Rightarrow> checkType c (heap c a) REDIS_STRING)
       = (c, False)"
  by (auto simp: stringOrMissing_def storedString_def checkType_def split: option.splits)

subsection \<open>What the services change\<close>

lemma addReply_proj:
  "heap (addReply c r) = heap c" "brk (addReply c r) = brk c" "dict (addReply c r) = dict c"
  "dirty (addReply c r) = dirty c" "modified (addReply c r) = modified c"
  "argv (addReply c r) = argv c" "reply (addReply c r) = reply c @ [r]"
  by (simp_all add: addReply_def)

lemma signalModifiedKey_proj:
  "heap (signalModifiedKey c k) = heap c" "brk (signalModifiedKey c k) = brk c"
  "dict (signalModifiedKey c k) = dict c" "dirty (signalModifiedKey c k) = dirty c"
  "modified (signalModifiedKey c k) = modified c @ [k]"
  "argv (signalModifiedKey c k) = argv c" "reply (signalModifiedKey c k) = reply c"
  by (simp_all add: signalModifiedKey_def)

lemma incrRefCount_proj:
  "ptr (heap (incrRefCount c a) b) = ptr (heap c b)"
  "otype (heap (incrRefCount c a) b) = otype (heap c b)"
  "brk (incrRefCount c a) = brk c" "dict (incrRefCount c a) = dict c"
  "dirty (incrRefCount c a) = dirty c" "modified (incrRefCount c a) = modified c"
  "argv (incrRefCount c a) = argv c" "reply (incrRefCount c a) = reply c"
  by (simp_all add: incrRefCount_def)

lemma decrRefCount_proj:
  "ptr (heap (decrRefCount c a) b) = ptr (heap c b)"
  "otype (heap (decrRefCount c a) b) = otype (heap c b)"
  "brk (decrRefCount c a) = brk c" "dict (decrRefCount c a) = dict c"
  "dirty (decrRefCount c a) = dirty c" "modified (decrRefCount c a) = modified c"
  "argv (decrRefCount c a) = argv c" "reply (decrRefCount c a) = reply c"
  by (simp_all add: decrRefCount_def)

lemma dbAdd_proj:
  "heap (dbAdd c k a) = heap c" "brk (dbAdd c k a) = brk c"
  "dict (dbAdd c k a) = (dict c)(k \<mapsto> a)" "dirty (dbAdd c k a) = dirty c"
  "modified (dbAdd c k a) = modified c" "argv (dbAdd c k a) = argv c"
  "reply (dbAdd c k a) = reply c"
  by (simp_all add: dbAdd_def)

lemma dbOverwrite_proj:
  "ptr (heap (dbOverwrite c k a) b) = ptr (heap c b)"
  "otype (heap (dbOverwrite c k a) b) = otype (heap c b)"
  "brk (dbOverwrite c k a) = brk c"
  "dict (dbOverwrite c k a) = (dict c)(k \<mapsto> a)" "dirty (dbOverwrite c k a) = dirty c"
  "modified (dbOverwrite c k a) = modified c" "argv (dbOverwrite c k a) = argv c"
  "reply (dbOverwrite c k a) = reply c"
  by (simp_all add: dbOverwrite_def decrRefCount_def split: option.splits)

lemma createObject_proj:
  "fst (createObject c t p) = brk c"
  "ptr (heap (snd (createObject c t p)) b) = (if b = brk c then p else ptr (heap c b))"
  "otype (heap (snd (createObject c t p)) b) = (if b = brk c then t else otype (heap c b))"
  "brk (snd (createObject c t p)) = Suc (brk c)"
  "dict (snd (createObject c t p)) = dict c" "dirty (snd (createObject c t p)) = dirty c"
  "modified (snd (createObject c t p)) = modified c" "argv (snd (createObject c t p)) = argv c"
  "reply (snd (createObject c t p)) = reply c"
  by (simp_all add: createObject_def)

lemma rewriteClientCommandArgument_proj:
  "ptr (heap (rewriteClientCommandArgument c i a) b) = ptr (heap c b)"
  "otype (heap (rewriteClientCommandArgument c i a) b) = otype (heap c b)"
  "brk (rewriteClientCommandArgument c i a) = brk c"
  "dict (rewriteClientCommandArgument c i a) = dict c"
  "dirty (rewriteClientCommandArgument c i a) = dirty c"
  "modified (rewriteClientCommandArgument c i a) = modified c"
  "argv (rewriteClientCommandArgument c i a) = (argv c)[i := a]"
  "reply (rewriteClientCommandArgument c i a) = reply c"
  by (simp_all add: rewriteClientCommandArgument_def Let_def incrRefCount_def decrRefCount_def)

lemma dirty_update_proj:
  "heap (c\<lparr>dirty := n\<rparr>) = heap c" "brk (c\<lparr>dirty := n\<rparr>) = brk c"
  "dict (c\<lparr>dirty := n\<rparr>) = dict c" "modified (c\<lparr>dirty := n\<rparr>) = modified c"
  "argv (c\<lparr>dirty := n\<rparr>) = argv c" "reply (c\<lparr>dirty := n\<rparr>) = reply c"
  by simp_all

lemmas proj = addReply_proj signalModifiedKey_proj incrRefCount_proj decrRefCount_proj
  dbAdd_proj dbOverwrite_proj createObject_proj rewriteClientCommandArgument_proj

subsection \<open>The paths of INCRBYFLOAT\<close>

lemma incrbyfloat_success:
  assumes "ptr (heap c (argv c ! 1)) = PtrSds key"
    and "stringOrMissing c key"
    and "getLongDoubleFromObject ld (map_option (heap c) (dict c key)) = Some current"
    and "getLongDoubleFromObject ld (Some (heap c (argv c ! 2))) = Some incr"
    and "\<not> ld_isnan ld (ld_add ld current incr)" and "\<not> ld_isinf ld (ld_add ld current incr)"
    and "c' = incrbyfloatCommand ld c" and "txt = ld_format ld (ld_add ld current incr)"
  shows "dict c' = (dict c)(key \<mapsto> brk c)"
    and "argv c' = (argv c)[0 := Suc (brk c), 2 := brk c]"
    and "reply c' = reply c @ [ReplyBulk txt]"
    and "ptr (heap c' b) =
           (if b = brk c then PtrSds txt else if b = Suc (brk c) then PtrSds ''SET''
            else ptr (heap c b))"
proof -
  have e: "c' =
     (let (new, c2) = createStringObjectFromLongDouble ld c (ld_add ld current incr);
                                  c3 = (case dict c key of
                                          Some a \<Rightarrow> dbOverwrite c2 key new
                                        | None \<Rightarrow> dbAdd c2 key new);
                                  c4 = signalModifiedKey c3 key;
                                  c5 = c4\<lparr>dirty := dirty c4 + 1\<rparr>;
                                  c6 = addReplyBulk c5 new;
                                  (aux, c7) = createStringObject c6 ''SET'';
                                  c8 = rewriteClientCommandArgument c7 0 aux;
                                  c9 = decrRefCount c8 aux
                              in rewriteClientCommandArgument c9 2 new)"
    using assms(1,3-7) guard_string_or_missing [OF assms(2)]
    by (simp add: incrbyfloatCommand_def sdsOf_def lookupKeyWrite_def
        getLongDoubleFromObjectOrReply_def)
  show "dict c' = (dict c)(key \<mapsto> brk c)"
    unfolding e using assms(8)
    by (cases "dict c key")
       (simp_all add: proj Let_def case_prod_beta createStringObjectFromLongDouble_def
          createStringObject_def addReplyBulk_def)
  show "argv c' = (argv c)[0 := Suc (brk c), 2 := brk c]"
    unfolding e using assms(8)
    by (cases "dict c key")
       (simp_all add: proj Let_def case_prod_beta createStringObjectFromLongDouble_def
          createStringObject_def addReplyBulk_def)
  show "reply c' = reply c @ [ReplyBulk txt]"
    unfolding e using assms(8)
    by (cases "dict c key")
       (simp_all add: proj Let_def case_prod_beta createStringObjectFromLongDouble_def
          createStringObject_def addReplyBulk_def decodedBytes_def)
  show "ptr (heap c' b) =
           (if b = brk c then PtrSds txt else if b = Suc (brk c) then PtrSds ''SET''
            else ptr (heap c b))"
    unfolding e using assms(8)
    by (cases "dict c key")
       (simp_all add: proj Let_def case_prod_beta createStringObjectFromLongDouble_def
          createStringObject_def addReplyBulk_def)
qed

lemma incrbyfloat_failure:
  assumes "ptr (heap c (argv c ! 1)) = PtrSds key"
    and "stringOrMissing c key"
    and "getLongDoubleFromObject ld (map_option (heap c) (dict c key)) = Some current"
    and "getLongDoubleFromObject ld (Some (heap c (argv c ! 2))) = Some incr"
    and "ld_isnan ld (ld_add ld current incr) \<or> ld_isinf ld (ld_add ld current incr)"
  shows "incrbyfloatCommand ld c =
          c\<lparr>reply := reply c @ [ReplyError ''increment would produce NaN or Infinity'']\<rparr>"
proof -
  have "incrbyfloatCommand ld c = addReplyError c ''increment would produce NaN or Infinity''"
    using assms(1,3-5) guard_string_or_missing [OF assms(2)]
    by (simp add: incrbyfloatCommand_def sdsOf_def lookupKeyWrite_def
        getLongDoubleFromObjectOrReply_def)
  then show ?thesis by (simp add: addReplyError_def addReply_def)
qed

subsection \<open>The value and the reply of SETRANGE\<close>

lemma setrange_value:
  assumes "ptr (heap c (argv c ! 1)) = PtrSds key"
    and "getLongLongFromObject (Some (heap c (argv c ! 2))) = Some offset" and "is_llong offset"
    and "ptr (heap c (argv c ! 3)) = PtrSds d"
    and "0 \<le> offset" and "d \<noteq> []" and "offset + int (length d) \<le> 512 * 1024 * 1024"
    and "stringOrMissing c key"
    and "old = (case stringValue c key of None \<Rightarrow> [] | Some s \<Rightarrow> s)"
  shows "\<exists>buf. stringValue (setrangeCommand c) key = Some buf \<and>
           writtenAt old (nat offset) d buf \<and>
           reply (setrangeCommand c) =
             reply c @ [ReplyLongLong (max (int (length old)) (offset + int (length d)))]"
proof -
  have big: "offset + int (length d) \<le> LLONG_MAX"
    using assms(7) by (simp add: LLONG_MAX_def)
  have len: "int (length buf) = max (int (length old)) (offset + int (length d))"
    if "writtenAt old (nat offset) d buf" for buf
  proof -
    from that have "length buf = max (length old) (nat offset + length d)"
      by (simp add: writtenAt_def)
    with assms(5) show ?thesis by linarith
  qed
  show ?thesis
  proof (cases "dict c key")
    case None
    then have old: "old = []" using assms(9) by (simp add: stringValue_def)
    let ?c = "dbAdd (snd (createObject c REDIS_STRING (PtrSds []))) key (brk c)"
    have p: "ptr (heap ?c (brk c)) = PtrSds []"
      by (simp add: dbAdd_def createObject_def)
    from setrangeWrite_ok [OF p assms(6) assms(5) big, of key] obtain buf where
      w: "writtenAt [] (nat offset) d buf" and
      s: "setrangeWrite ?c key (brk c) offset d =
            ?c\<lparr>heap := (heap ?c)(brk c := (heap ?c (brk c))\<lparr>ptr := PtrSds buf\<rparr>),
               dirty := dirty ?c + 1, modified := modified ?c @ [key],
               reply := reply ?c @ [ReplyLongLong (int (length buf))]\<rparr>"
      by (auto simp: LLONG_MAX_def)
    have e: "setrangeCommand c = setrangeWrite ?c key (brk c) offset d"
      using assms None by (intro setrange_missing) simp_all
    show ?thesis
      using w len [of buf] old unfolding e s
      by (intro exI [of _ buf])
         (simp add: stringValue_def dbAdd_def createObject_def decodedBytes_def)
  next
    case (Some a)
    with assms(8) have st: "a < brk c" "otype (heap c a) = REDIS_STRING"
      "ptr (heap c a) \<noteq> PtrOther" "stringObjectLen (heap c a) \<le> LLONG_MAX"
      by (simp_all add: stringOrMissing_def storedString_def)
    from Some assms(9) have old: "old = decodedBytes (heap c a)"
      by (simp add: stringValue_def)
    from st(3,4) old have lold: "int (length old) \<le> LLONG_MAX"
      by (cases "ptr (heap c a)") (simp_all add: stringObjectLen_def decodedBytes_def sdslen_def)
    obtain a' c' where u: "unshareStringValue c key a = (a', c')"
      by (cases "unshareStringValue c key a")
    have e: "setrangeCommand c = setrangeWrite c' key a' offset d"
      using setrange_existing [OF assms(1-7) Some st(2)] u by simp
    have "ptr (heap c' a') = PtrSds old \<and> dict c' key = Some a' \<and> reply c' = reply c"
    proof (cases "refcount (heap c a) = 1 \<and> encoding (heap c a) = REDIS_ENCODING_RAW")
      case True
      then obtain s where "ptr (heap c a) = PtrSds s"
        by (cases "ptr (heap c a)") (simp_all add: encoding_def)
      with True u Some old show ?thesis
        by (simp add: unshare_exclusive decodedBytes_def)
    next
      case False
      then have g: "refcount (heap c a) \<noteq> 1 \<or> encoding (heap c a) \<noteq> REDIS_ENCODING_RAW"
        by blast
      from unshare_copy(3,4,7) [OF g st(3) Some st(1) u] old show ?thesis by simp
    qed
    then have p: "ptr (heap c' a') = PtrSds old" and dk: "dict c' key = Some a'"
      and r: "reply c' = reply c" by simp_all
    from setrangeWrite_ok [OF p assms(6) assms(5) big lold, of key] obtain buf where
      w: "writtenAt old (nat offset) d buf" and
      s: "setrangeWrite c' key a' offset d =
            c'\<lparr>heap := (heap c')(a' := (heap c' a')\<lparr>ptr := PtrSds buf\<rparr>),
               dirty := dirty c' + 1, modified := modified c' @ [key],
               reply := reply c' @ [ReplyLongLong (int (length buf))]\<rparr>"
      by auto
    show ?thesis
      using w len [of buf] dk r unfolding e s
      by (intro exI [of _ buf]) (simp add: stringValue_def decodedBytes_def)
  qed
qed

lemma setrange_empty:
  assumes "ptr (heap c (argv c ! 1)) = PtrSds key"
    and "getLongLongFromObject (Some (heap c (argv c ! 2))) = Some offset"
    and "is_llong offset" and "0 \<le> offset"
    and "ptr (heap c (argv c ! 3)) = PtrSds []"
    and "stringOrMissing c key"
  shows "setrangeCommand c =
           c\<lparr>reply := reply c @
              [ReplyLongLong (case dict c key of
                                None \<Rightarrow> 0
                              | Some a \<Rightarrow> stringObjectLen (heap c a))]\<rparr>"
proof (cases "dict c key")
  case None
  with assms show ?thesis
    by (simp add: setrangeCommand_def getLongFromObjectOrReply_ok sdsOf_def sdslen_def
      lookupKeyWrite_def addReply_def shared_czero_def)
next
  case (Some a)
  with assms(6) have ty: "otype (heap c a) = REDIS_STRING"
    and le: "stringObjectLen (heap c a) \<le> LLONG_MAX"
    by (simp_all add: stringOrMissing_def storedString_def)
  have "0 \<le> stringObjectLen (heap c a)"
    by (simp add: stringObjectLen_def sdslen_def split: payload.splits)
  with le have "to_llong (stringObjectLen (heap c a)) = stringObjectLen (heap c a)"
    by (simp add: to_llong_id is_llong_def LLONG_MIN_def)
  with assms Some ty show ?thesis
    by (simp add: setrangeCommand_def getLongFromObjectOrReply_ok sdsOf_def sdslen_def
      lookupKeyWrite_def addReply_def addReplyLongLong_def checkType_def)
qed

subsection \<open>Conversions between signed and unsigned\<close>

lemma to_size_t_neg:
  assumes "- 18446744073709551616 \<le> x" and "x < 0"
  shows "to_size_t x = x + 18446744073709551616"
proof -
  have "(x + 18446744073709551616) mod 18446744073709551616 = x + 18446744073709551616"
    using assms by (intro mod_pos_pos_trivial) simp_all
  then show ?thesis by (simp add: to_size_t_def)
qed

lemma to_llong_to_size_t: "is_llong x \<Longrightarrow> to_llong (to_size_t x) = x"
proof (cases "x < 0")
  case True
  assume "is_llong x"
  with True have "to_size_t x = x + 18446744073709551616"
    by (intro to_size_t_neg) (simp_all add: is_llong_def LLONG_MIN_def)
  moreover have "to_llong (x + 18446744073709551616) = x"
  proof -
    have "(x + 9223372036854775808 + 18446744073709551616) mod 18446744073709551616 =
            (x + 9223372036854775808) mod 18446744073709551616"
      by (rule mod_add_self2)
    also have "\<dots> = x + 9223372036854775808"
      using True \<open>is_llong x\<close>
      by (intro mod_pos_pos_trivial) (simp_all add: is_llong_def LLONG_MIN_def)
    finally show ?thesis by (simp add: to_llong_def add.commute add.left_commute)
  qed
  ultimately show ?thesis by simp
next
  case False
  assume "is_llong x"
  with False show ?thesis
    by (simp add: size_arg_id is_llong_def)
qed

subsection \<open>The paths of APPEND\<close>

lemma writtenAt_append:
  assumes "writtenAt old (length old) d buf"
  shows "buf = old @ d"
proof (rule nth_equalityI)
  from assms show l: "length buf = length (old @ d)" by (simp add: writtenAt_def)
  fix i assume "i < length buf"
  with assms show "buf ! i = (old @ d) ! i"
    by (auto simp: writtenAt_def nth_append)
qed

lemma append_existing:
  assumes "ptr (heap c (argv c ! 1)) = PtrSds key"
    and "ptr (heap c (argv c ! 2)) = PtrSds d"
    and "dict c key = Some a" and "otype (heap c a) = REDIS_STRING"
    and "to_llong (to_size_t (stringObjectLen (heap c a) + sdslen d)) \<le> 512 * 1024 * 1024"
    and "unshareStringValue c key a = (a', c')"
  shows "appendCommand c =
           c'\<lparr>heap := (heap c')(a' := (heap c' a')
                   \<lparr>ptr := PtrSds (sdsOf (heap c' a') @ sdsOf (heap c' (argv c ! 2)))\<rparr>),
              dirty := dirty c' + 1,
              modified := modified c' @ [key],
              reply := reply c' @
                [ReplyLongLong (to_llong (int (length (sdsOf (heap c' a') @
                                                   sdsOf (heap c' (argv c ! 2))))))]\<rparr>"
  using assms
  by (simp add: appendCommand_def sdsOf_def lookupKeyWrite_def checkType_def
      checkStringLength_pass Let_def sdscatlen_def signalModifiedKey_def addReplyLongLong_def
      addReply_def sdslen_def)

lemma append_too_large:
  assumes "ptr (heap c (argv c ! 1)) = PtrSds key"
    and "ptr (heap c (argv c ! 2)) = PtrSds d"
    and "dict c key = Some a" and "otype (heap c a) = REDIS_STRING"
    and "to_llong (to_size_t (stringObjectLen (heap c a) + sdslen d)) > 512 * 1024 * 1024"
  shows "appendCommand c =
           c\<lparr>reply := reply c @ [ReplyError ''string exceeds maximum allowed size (512MB)'']\<rparr>"
  using assms
  by (simp add: appendCommand_def sdsOf_def lookupKeyWrite_def checkType_def
      checkStringLength_fail Let_def)

lemma setrange_too_large:
  assumes "ptr (heap c (argv c ! 1)) = PtrSds key"
    and "getLongLongFromObject (Some (heap c (argv c ! 2))) = Some offset" and "is_llong offset"
    and "ptr (heap c (argv c ! 3)) = PtrSds d"
    and "0 \<le> offset" and "d \<noteq> []"
    and "to_llong (to_size_t (offset + sdslen d)) > 512 * 1024 * 1024"
    and "case dict c key of None \<Rightarrow> True | Some a \<Rightarrow> otype (heap c a) = REDIS_STRING"
  shows "setrangeCommand c =
           c\<lparr>reply := reply c @ [ReplyError ''string exceeds maximum allowed size (512MB)'']\<rparr>"
  using assms
  by (cases "dict c key")
     (simp_all add: setrangeCommand_def getLongFromObjectOrReply_ok sdsOf_def lookupKeyWrite_def
        checkStringLength_fail sdslen_def checkType_def)

lemma append_missing:
  assumes "ptr (heap c (argv c ! 1)) = PtrSds key"
    and "ptr (heap c (argv c ! 2)) = PtrSds d"
    and "dict c key = None" and "2 < length (argv c)" and "int (length d) \<le> LLONG_MAX"
  shows "dict (appendCommand c) = (dict c)(key \<mapsto> argv c ! 2)"
    and "decodedBytes (heap (appendCommand c) (argv c ! 2)) = d"
    and "reply (appendCommand c) = reply c @ [ReplyLongLong (int (length d))]"
    and "brk (appendCommand c) = brk c"
    and "b \<noteq> argv c ! 2 \<Longrightarrow> heap (appendCommand c) b = heap c b"
proof -
  obtain c1 where t: "tryObjectEncoding c (argv c ! 2) = (argv c ! 2, c1)"
    by (cases "tryObjectEncoding c (argv c ! 2)")
       (auto simp: tryObjectEncoding_def split: payload.splits option.splits if_splits)
  have c1: "decodedBytes (heap c1 (argv c ! 2)) = d" "dict c1 = dict c" "reply c1 = reply c"
    "brk c1 = brk c" "argv c1 = argv c" "\<And>b. b \<noteq> argv c ! 2 \<Longrightarrow> heap c1 b = heap c b"
    "stringObjectLen (heap c1 (argv c ! 2)) = int (length d)"
    using t assms(2)
    by (auto simp: tryObjectEncoding_def decodedBytes_def stringObjectLen_def sdslen_def
        split: option.splits if_splits)
  have l: "to_llong (int (length d)) = int (length d)"
    using assms(5) by (simp add: to_llong_id is_llong_def LLONG_MIN_def)
  have e: "appendCommand c =
     (let c2 = c1\<lparr>argv := (argv c1)[2 := argv c ! 2]\<rparr>;
                  c3 = dbAdd c2 key (argv c2 ! 2);
                  c4 = incrRefCount c3 (argv c3 ! 2);
                  totlen = stringObjectLen (heap c4 (argv c4 ! 2));
                  c5 = signalModifiedKey c4 key;
                  c6 = c5\<lparr>dirty := dirty c5 + 1\<rparr>
              in addReplyLongLong c6 (to_llong totlen))"
    using assms(1,3) t by (simp add: appendCommand_def sdsOf_def lookupKeyWrite_def)
  have u: "(argv c)[2 := argv c ! 2] = argv c" by simp
  show "dict (appendCommand c) = (dict c)(key \<mapsto> argv c ! 2)"
    unfolding e using c1(2,5) assms(4)
    by (simp add: Let_def u dbAdd_def incrRefCount_def signalModifiedKey_def
        addReplyLongLong_def addReply_def)
  show "decodedBytes (heap (appendCommand c) (argv c ! 2)) = d"
    unfolding e using c1(1,5) assms(4)
    by (simp add: Let_def u dbAdd_def incrRefCount_def signalModifiedKey_def
        addReplyLongLong_def addReply_def decodedBytes_def)
  show "reply (appendCommand c) = reply c @ [ReplyLongLong (int (length d))]"
    unfolding e using c1(3,5,7) assms(4) l
    by (simp add: Let_def u dbAdd_def incrRefCount_def signalModifiedKey_def
        addReplyLongLong_def addReply_def stringObjectLen_def)
  show "brk (appendCommand c) = brk c"
    unfolding e using c1(4,5) assms(4)
    by (simp add: Let_def u dbAdd_def incrRefCount_def signalModifiedKey_def
        addReplyLongLong_def addReply_def)
  show "heap (appendCommand c) b = heap c b" if "b \<noteq> argv c ! 2"
    unfolding e using c1(5) c1(6) [OF that] that assms(4)
    by (simp add: Let_def u dbAdd_def incrRefCount_def signalModifiedKey_def
        addReplyLongLong_def addReply_def)
qed

subsection \<open>Edits behind the copy\<close>

lemma stringObjectLen_decoded:
  "ptr ob \<noteq> PtrOther \<Longrightarrow> stringObjectLen ob = int (length (decodedBytes ob))"
  by (cases "ptr ob") (simp_all add: stringObjectLen_def decodedBytes_def sdslen_def)

lemma unshare_facts:
  assumes "dict c key = Some a" and "storedString c a"
    and "unshareStringValue c key a = (a', c')"
  shows "ptr (heap c' a') = PtrSds (decodedBytes (heap c a))"
    and "dict c' key = Some a'" and "reply c' = reply c" and "argv c' = argv c"
    and "\<forall>b<brk c. ptr (heap c' b) = ptr (heap c b)"
proof -
  from assms(2) have st: "a < brk c" "ptr (heap c a) \<noteq> PtrOther"
    by (simp_all add: storedString_def)
  have "ptr (heap c' a') = PtrSds (decodedBytes (heap c a)) \<and> dict c' key = Some a' \<and>
        reply c' = reply c \<and> argv c' = argv c \<and>
        (\<forall>b<brk c. ptr (heap c' b) = ptr (heap c b))"
  proof (cases "refcount (heap c a) = 1 \<and> encoding (heap c a) = REDIS_ENCODING_RAW")
    case True
    then obtain s where "ptr (heap c a) = PtrSds s"
      by (cases "ptr (heap c a)") (simp_all add: encoding_def)
    with True assms(1,3) show ?thesis
      by (simp add: unshare_exclusive decodedBytes_def)
  next
    case False
    then have g: "refcount (heap c a) \<noteq> 1 \<or> encoding (heap c a) \<noteq> REDIS_ENCODING_RAW"
      by blast
    note u = unshare_copy [OF g st(2) assms(1) st(1) assms(3)]
    from u(3,4,5,7,10) show ?thesis by simp
  qed
  then show "ptr (heap c' a') = PtrSds (decodedBytes (heap c a))"
    and "dict c' key = Some a'" and "reply c' = reply c" and "argv c' = argv c"
    and "\<forall>b<brk c. ptr (heap c' b) = ptr (heap c b)"
    by simp_all
qed

lemma guarded_edit:
  assumes "dict c key = Some a" and "storedString c a"
    and "unshareStringValue c key a = (a', c')"
    and "cf = c'\<lparr>heap := (heap c')(a' := (heap c' a')\<lparr>ptr := PtrSds buf\<rparr>),
                  dirty := n, modified := m, reply := r\<rparr>"
  shows "if refcount (heap c a) = 1 \<and> encoding (heap c a) = REDIS_ENCODING_RAW
         then editedInPlace c cf a else editedOnCopy c cf key a"
proof (cases "refcount (heap c a) = 1 \<and> encoding (heap c a) = REDIS_ENCODING_RAW")
  case True
  then obtain s where s: "ptr (heap c a) = PtrSds s"
    by (cases "ptr (heap c a)") (simp_all add: encoding_def)
  with True assms(3) have "a' = a" "c' = c" by (simp_all add: unshare_exclusive)
  with True assms(2,4) have "editedInPlace c cf a"
    by (simp add: editedInPlace_def encoding_def storedString_def)
  with True show ?thesis by simp
next
  case False
  then have g: "refcount (heap c a) \<noteq> 1 \<or> encoding (heap c a) \<noteq> REDIS_ENCODING_RAW"
    by blast
  from assms(2) have st: "a < brk c" "ptr (heap c a) \<noteq> PtrOther"
    by (simp_all add: storedString_def)
  note u = unshare_copy [OF g st(2) assms(1) st(1) assms(3)]
  from u(1) st(1) have ne: "a' \<noteq> a" "a \<noteq> a'" by simp_all
  have na: "\<forall>b<brk c. b \<noteq> a'" using u(1) by auto
  have p: "ptr (heap cf a) = ptr (heap c a)"
    using u(5) st(1) ne by (simp add: assms(4))
  have "\<exists>x. dict cf = (dict c)(key \<mapsto> x) \<and> x \<noteq> a \<and> brk c \<le> x \<and> x < brk cf \<and>
           refcount (heap cf x) = 1 \<and> otype (heap cf x) = REDIS_STRING \<and>
           encoding (heap cf x) = REDIS_ENCODING_RAW"
  proof (intro exI [of _ a'] conjI)
    show "dict cf = (dict c)(key \<mapsto> a')" using u(4) by (simp add: assms(4))
    show "a' \<noteq> a" by (rule ne(1))
    show "brk c \<le> a'" by (rule u(1))
    show "a' < brk cf"
      using g st assms(1,3)
      by (cases "ptr (heap c a)")
         (auto simp: assms(4) unshareStringValue_def getDecodedObject_def createStringObject_def
            createObject_def incrRefCount_def decrRefCount_def dbOverwrite_def Let_def
            split: if_splits)
    show "refcount (heap cf a') = 1" using u(3) by (simp add: assms(4))
    show "otype (heap cf a') = REDIS_STRING" using u(3) by (simp add: assms(4))
    show "encoding (heap cf a') = REDIS_ENCODING_RAW" by (simp add: assms(4) encoding_def)
  qed
  moreover have "decodedBytes (heap cf a) = decodedBytes (heap c a)"
    using p by (simp add: decodedBytes_def)
  moreover have "stringObjectLen (heap cf a) = stringObjectLen (heap c a)"
    using p by (simp add: stringObjectLen_def)
  moreover have "refcount (heap cf a) = refcount (heap c a) - 1"
    using u(6) ne by (simp add: assms(4))
  moreover have "\<forall>b<brk c. ptr (heap cf b) = ptr (heap c b)"
    using u(5) na by (simp add: assms(4))
  ultimately have "editedOnCopy c cf key a"
    using p unfolding editedOnCopy_def by blast
  with False show ?thesis by auto
qed

lemma setrange_existing_state:
  assumes "ptr (heap c (argv c ! 1)) = PtrSds key"
    and "getLongLongFromObject (Some (heap c (argv c ! 2))) = Some offset" and "is_llong offset"
    and "ptr (heap c (argv c ! 3)) = PtrSds d"
    and "0 \<le> offset" and "d \<noteq> []" and "offset + int (length d) \<le> 512 * 1024 * 1024"
    and "dict c key = Some a" and "storedString c a"
    and "unshareStringValue c key a = (a', c')"
  shows "\<exists>buf. writtenAt (decodedBytes (heap c a)) (nat offset) d buf \<and>
           setrangeCommand c =
             c'\<lparr>heap := (heap c')(a' := (heap c' a')\<lparr>ptr := PtrSds buf\<rparr>),
                dirty := dirty c' + 1, modified := modified c' @ [key],
                reply := reply c' @ [ReplyLongLong (int (length buf))]\<rparr>"
proof -
  from assms(9) have st: "otype (heap c a) = REDIS_STRING" "ptr (heap c a) \<noteq> PtrOther"
    "stringObjectLen (heap c a) \<le> LLONG_MAX" by (simp_all add: storedString_def)
  have e: "setrangeCommand c = setrangeWrite c' key a' offset d"
    using setrange_existing [OF assms(1-8) st(1)] assms(10) by simp
  have p: "ptr (heap c' a') = PtrSds (decodedBytes (heap c a))"
    by (rule unshare_facts(1) [OF assms(8,9,10)])
  have big: "offset + int (length d) \<le> LLONG_MAX"
    using assms(7) by (simp add: LLONG_MAX_def)
  have lold: "int (length (decodedBytes (heap c a))) \<le> LLONG_MAX"
    using st(2,3) by (simp add: stringObjectLen_decoded)
  from setrangeWrite_ok [OF p assms(6) assms(5) big lold, of key] show ?thesis
    unfolding e .
qed

lemma append_existing_state:
  assumes "ptr (heap c (argv c ! 1)) = PtrSds key"
    and "ptr (heap c (argv c ! 2)) = PtrSds d" and "argv c ! 2 < brk c"
    and "dict c key = Some a" and "storedString c a"
    and "int (length (decodedBytes (heap c a))) + int (length d) \<le> 512 * 1024 * 1024"
    and "unshareStringValue c key a = (a', c')"
  shows "appendCommand c =
           c'\<lparr>heap := (heap c')(a' := (heap c' a')
                   \<lparr>ptr := PtrSds (decodedBytes (heap c a) @ d)\<rparr>),
              dirty := dirty c' + 1, modified := modified c' @ [key],
              reply := reply c' @
                [ReplyLongLong (int (length (decodedBytes (heap c a))) + int (length d))]\<rparr>"
proof -
  from assms(5) have st: "otype (heap c a) = REDIS_STRING" "ptr (heap c a) \<noteq> PtrOther"
    by (simp_all add: storedString_def)
  note u = unshare_facts [OF assms(4,5,7)]
  let ?n = "int (length (decodedBytes (heap c a))) + int (length d)"
  have n: "to_llong (to_size_t ?n) = ?n" "to_llong ?n = ?n"
    using assms(6) by (simp_all add: size_arg_id to_llong_id is_llong_def LLONG_MAX_def LLONG_MIN_def)
  have c: "to_llong (to_size_t (stringObjectLen (heap c a) + sdslen d)) \<le> 512 * 1024 * 1024"
    using n(1) assms(6) st(2) by (simp add: stringObjectLen_decoded sdslen_def)
  have a1: "sdsOf (heap c' a') = decodedBytes (heap c a)"
    using u(1) by (simp add: sdsOf_def)
  have a2: "sdsOf (heap c' (argv c ! 2)) = d"
    using u(5) assms(2,3) by (simp add: sdsOf_def)
  show ?thesis
    using append_existing [OF assms(1,2,4) st(1) c assms(7)] n(2)
    by (simp add: a1 a2)
qed

lemma guarded_edit_value:
  assumes "dict c key = Some a" and "storedString c a"
    and "unshareStringValue c key a = (a', c')"
    and "cf = c'\<lparr>heap := (heap c')(a' := (heap c' a')\<lparr>ptr := PtrSds buf\<rparr>),
                  dirty := n, modified := m, reply := r\<rparr>"
  shows "stringValue cf key = Some buf"
  using unshare_facts(2) [OF assms(1-3)]
  by (simp add: assms(4) stringValue_def decodedBytes_def)

lemma writtenAt_empty: "writtenAt [] 0 d buf \<Longrightarrow> buf = d"
  using writtenAt_append [of "[]" d buf] by simp

subsection \<open>GETRANGE on indices that survive the cast\<close>

lemma to_unsigned_id: "0 \<le> v \<Longrightarrow> v < 4294967296 \<Longrightarrow> to_unsigned v = v"
  by (simp add: to_unsigned_def)

lemma getrange_index_arith:
  assumes "is_llong start" and "is_llong end'" and "end' < 4294967296"
    and "0 \<le> n" and "n \<le> 512 * 1024 * 1024"
    and "start1 = (if start < 0 then to_llong (to_size_t (n + start)) else start)"
    and "end1 = (if end' < 0 then to_llong (to_size_t (n + end')) else end')"
    and "start2 = (if start1 < 0 then 0 else start1)"
    and "end2 = (if end1 < 0 then 0 else end1)"
    and "end3 = (if to_unsigned end2 \<ge> n then to_llong (to_size_t (n - 1)) else end2)"
  shows "start2 = (if start < 0 then max 0 (n + start) else start)"
    and "end3 = (if (if end' < 0 then max 0 (n + end') else end') \<ge> n then n - 1
                 else (if end' < 0 then max 0 (n + end') else end'))"
    and "start2 \<le> end3 \<Longrightarrow> to_size_t (end3 - start2 + 1) = end3 - start2 + 1"
    and "0 \<le> start2" and "end3 < n"
proof -
  have s1: "start1 = (if start < 0 then n + start else start)"
    using assms(1,4,5) by (simp add: assms(6) to_llong_to_size_t is_llong_def LLONG_MIN_def LLONG_MAX_def)
  have e1: "end1 = (if end' < 0 then n + end' else end')"
    using assms(2,4,5) by (simp add: assms(7) to_llong_to_size_t is_llong_def LLONG_MIN_def LLONG_MAX_def)
  show s2: "start2 = (if start < 0 then max 0 (n + start) else start)"
    by (auto simp: assms(8) s1)
  have e2: "end2 = (if end' < 0 then max 0 (n + end') else end')"
    by (auto simp: assms(9) e1)
  have b: "0 \<le> end2" "end2 < 4294967296"
    using assms(3,4,5) by (auto simp: e2)
  have m: "to_llong (to_size_t (n - 1)) = n - 1"
    using assms(4,5) by (intro to_llong_to_size_t) (simp add: is_llong_def LLONG_MIN_def LLONG_MAX_def)
  show e3: "end3 = (if (if end' < 0 then max 0 (n + end') else end') \<ge> n then n - 1
                 else (if end' < 0 then max 0 (n + end') else end'))"
    using b by (simp add: assms(10) to_unsigned_id m e2)
  show s0: "0 \<le> start2" by (auto simp: s2)
  show lt: "end3 < n" by (auto simp: e3)
  show "to_size_t (end3 - start2 + 1) = end3 - start2 + 1" if "start2 \<le> end3"
    using that lt s0 assms(5) by (intro to_size_t_id) simp_all
qed

lemma getrange_within_unsigned:
  assumes "ptr (heap c (argv c ! 1)) = PtrSds key"
    and "getLongLongFromObject (Some (heap c (argv c ! 2))) = Some start" and "is_llong start"
    and "getLongLongFromObject (Some (heap c (argv c ! 3))) = Some end'" and "is_llong end'"
    and "dict c key = Some a" and "storedString c a"
    and "str = decodedBytes (heap c a)" and "int (length str) \<le> 512 * 1024 * 1024"
    and "end' < 4294967296"
  shows "getrangeCommand c = c\<lparr>reply := reply c @ [ReplyBulk (spec_read_range str start end')]\<rparr>"
proof -
  from assms(7) have st: "otype (heap c a) = REDIS_STRING" "ptr (heap c a) \<noteq> PtrOther"
    by (simp_all add: storedString_def)
  let ?n = "int (length str)"
  define start1 where "start1 = (if start < 0 then to_llong (to_size_t (?n + start)) else start)"
  define end1 where "end1 = (if end' < 0 then to_llong (to_size_t (?n + end')) else end')"
  define start2 where "start2 = (if start1 < 0 then 0 else start1)"
  define end2 where "end2 = (if end1 < 0 then 0 else end1)"
  define end3 where "end3 = (if to_unsigned end2 \<ge> ?n then to_llong (to_size_t (?n - 1)) else end2)"
  note ar = getrange_index_arith [OF assms(3,5,10) _ assms(9) start1_def end1_def start2_def
      end2_def end3_def, simplified]
  have bytes: "(case ptr (heap c a) of PtrLong v \<Rightarrow> ll2string v | PtrSds s \<Rightarrow> s | PtrOther \<Rightarrow> [])
                 = str"
    using st(2) by (cases "ptr (heap c a)") (simp_all add: assms(8) decodedBytes_def)
  have e: "getrangeCommand c =
          (if start2 > end3 then addReply c shared_emptybulk
           else addReplyBulkCBuffer c str start2 (to_size_t (end3 - start2 + 1)))"
    using assms(1,2,3,4,5,6) st(1) bytes
    by (simp add: getrangeCommand_def getLongFromObjectOrReply_ok sdsOf_def
        lookupKeyReadOrReply_def lookupKeyRead_def checkType_def Let_def sdslen_def
        start1_def end1_def start2_def end2_def end3_def)
  show ?thesis
  proof (cases "start2 > end3")
    case True
    then have "spec_read_range str start end' = []"
      using ar(1,2) by (simp add: spec_read_range_def Let_def)
    with True show ?thesis by (simp add: e addReply_def shared_emptybulk_def)
  next
    case False
    then have le: "start2 \<le> end3" by simp
    from le ar(4,5) have n0: "?n \<noteq> 0" by auto
    have "spec_read_range str start end' = take (nat (end3 - start2 + 1)) (drop (nat start2) str)"
      using False n0 ar(1,2) by (simp add: spec_read_range_def Let_def)
    moreover have "addReplyBulkCBuffer c str start2 (to_size_t (end3 - start2 + 1)) =
            addReply c (ReplyBulk (take (nat (end3 - start2 + 1)) (drop (nat start2) str)))"
      using ar(3) [OF le] ar(4,5) le by (simp add: addReplyBulkCBuffer_def sdslen_def)
    ultimately show ?thesis using False by (simp add: e addReply_def)
  qed
qed

lemma getrange_examples:
  "reply (getrangeCommand (getrange_hello ''-5'' ''-1'')) = [ReplyBulk ''World'']"
  "reply (getrangeCommand (getrange_hello ''0'' ''-1'')) = [ReplyBulk ''Hello World'']"
  "reply (getrangeCommand (getrange_hello ''20'' ''25'')) = [ReplyBulk []]"
  by code_simp+

subsection \<open>SETRANGE when the size check lets the request through\<close>

lemma setrangeWrite_grows:
  assumes "ptr (heap c a) = PtrSds old" and "d \<noteq> []" and "0 \<le> offset"
    and "offset + int (length d) < 18446744073709551616"
  shows "\<exists>buf. writtenAt old (nat offset) d buf \<and>
           setrangeWrite c key a offset d =
             c\<lparr>heap := (heap c)(a := (heap c a)\<lparr>ptr := PtrSds buf\<rparr>),
               dirty := dirty c + 1,
               modified := modified c @ [key],
               reply := reply c @ [ReplyLongLong (to_llong (int (length buf)))]\<rparr>"
proof -
  from grow_copy [OF assms(3,4), of old] obtain buf where
    m: "memcpy (sdsgrowzero old (to_size_t (offset + sdslen d))) offset d = Some buf"
    and w: "writtenAt old (nat offset) d buf" by blast
  show ?thesis
    using assms(1,2) m w
    by (intro exI [of _ buf])
       (simp add: setrangeWrite_def sdslen_def sdsOf_def Let_def signalModifiedKey_def
          addReplyLongLong_def addReply_def)
qed

lemma setrange_missing_passes:
  assumes "ptr (heap c (argv c ! 1)) = PtrSds key"
    and "getLongLongFromObject (Some (heap c (argv c ! 2))) = Some offset" and "is_llong offset"
    and "ptr (heap c (argv c ! 3)) = PtrSds d"
    and "0 \<le> offset" and "d \<noteq> []"
    and "to_llong (to_size_t (offset + sdslen d)) \<le> 512 * 1024 * 1024"
    and "dict c key = None"
  shows "setrangeCommand c =
           setrangeWrite (dbAdd (snd (createObject c REDIS_STRING (PtrSds []))) key (brk c))
             key (brk c) offset d"
  using assms
  by (simp add: setrangeCommand_def getLongFromObjectOrReply_ok sdsOf_def lookupKeyWrite_def
      checkStringLength_pass sdslen_def createObject_def sdsempty_def)

lemma setrange_existing_passes:
  assumes "ptr (heap c (argv c ! 1)) = PtrSds key"
    and "getLongLongFromObject (Some (heap c (argv c ! 2))) = Some offset" and "is_llong offset"
    and "ptr (heap c (argv c ! 3)) = PtrSds d"
    and "0 \<le> offset" and "d \<noteq> []"
    and "to_llong (to_size_t (offset + sdslen d)) \<le> 512 * 1024 * 1024"
    and "dict c key = Some a" and "otype (heap c a) = REDIS_STRING"
  shows "setrangeCommand c =
           setrangeWrite (snd (unshareStringValue c key a)) key
             (fst (unshareStringValue c key a)) offset d"
  using assms
  by (simp add: setrangeCommand_def getLongFromObjectOrReply_ok sdsOf_def lookupKeyWrite_def
      checkStringLength_pass sdslen_def checkType_def case_prod_beta)

section \<open>The properties of the specification\<close>

text \<open>
  C1: SETRANGE with non-empty data and APPEND, within the size ceiling, on a key that holds
  a string value. If the value has reference count 1 and is raw, the edit happens in that
  object: the key stays bound to it, nothing is allocated and no other object changes.
  Otherwise the key is bound to a newly allocated, exclusively owned raw object, and the
  original object keeps its bytes and its length. In both cases the value under the key is
  the edit applied to the canonical bytes of the original.
\<close>

theorem destructive_edits_are_guarded:
  assumes "ptr (heap s (argv s ! 1)) = PtrSds ks"
    and "getLongLongFromObject (Some (heap s (argv s ! 2))) = Some offset" and "is_llong offset"
    and "ptr (heap s (argv s ! 3)) = PtrSds d"
    and "0 \<le> offset" and "d \<noteq> []" and "offset + int (length d) \<le> 512 * 1024 * 1024"
    and "dict s ks = Some a" and "storedString s a"
    and "ptr (heap c (argv c ! 1)) = PtrSds kc"
    and "ptr (heap c (argv c ! 2)) = PtrSds e" and "argv c ! 2 < brk c"
    and "dict c kc = Some b" and "storedString c b"
    and "int (length (decodedBytes (heap c b))) + int (length e) \<le> 512 * 1024 * 1024"
  shows "(if refcount (heap s a) = 1 \<and> encoding (heap s a) = REDIS_ENCODING_RAW
          then editedInPlace s (setrangeCommand s) a
          else editedOnCopy s (setrangeCommand s) ks a) \<and>
         (\<exists>buf. writtenAt (decodedBytes (heap s a)) (nat offset) d buf \<and>
                stringValue (setrangeCommand s) ks = Some buf) \<and>
         (if refcount (heap c b) = 1 \<and> encoding (heap c b) = REDIS_ENCODING_RAW
          then editedInPlace c (appendCommand c) b
          else editedOnCopy c (appendCommand c) kc b) \<and>
         stringValue (appendCommand c) kc = Some (decodedBytes (heap c b) @ e)"
proof -
  obtain a' s' where us: "unshareStringValue s ks a = (a', s')"
    by (cases "unshareStringValue s ks a")
  from setrange_existing_state [OF assms(1-9) us] obtain buf where
    w: "writtenAt (decodedBytes (heap s a)) (nat offset) d buf" and
    fs: "setrangeCommand s =
           s'\<lparr>heap := (heap s')(a' := (heap s' a')\<lparr>ptr := PtrSds buf\<rparr>),
              dirty := dirty s' + 1, modified := modified s' @ [ks],
              reply := reply s' @ [ReplyLongLong (int (length buf))]\<rparr>"
    by blast
  note g1 = guarded_edit [OF assms(8,9) us fs]
  have v1: "stringValue (setrangeCommand s) ks = Some buf"
    by (rule guarded_edit_value [OF assms(8,9) us fs])
  obtain b' c' where uc: "unshareStringValue c kc b = (b', c')"
    by (cases "unshareStringValue c kc b")
  note fc = append_existing_state [OF assms(10-15) uc]
  note g2 = guarded_edit [OF assms(13,14) uc fc]
  have v2: "stringValue (appendCommand c) kc = Some (decodedBytes (heap c b) @ e)"
    by (rule guarded_edit_value [OF assms(13,14) uc fc])
  from g1 w v1 g2 v2 show ?thesis by blast
qed

text \<open>
  \<^verbatim>\<open>SETRANGE k 1 a\<close> on \<^verbatim>\<open>Hello\<close> held with reference count 2 writes \<^verbatim>\<open>Hallo\<close> into a
  new object and leaves \<^verbatim>\<open>Hello\<close> in the old one; \<^verbatim>\<open>APPEND k !\<close> on \<^verbatim>\<open>Hello\<close> held with
  reference count 1 edits the object itself.
\<close>

theorem destructive_edits_are_guarded_witness:
  "ptr (heap setrange_shared (argv setrange_shared ! 1)) = PtrSds ''k'' \<and>
   getLongLongFromObject (Some (heap setrange_shared (argv setrange_shared ! 2))) = Some 1 \<and>
   is_llong 1 \<and>
   ptr (heap setrange_shared (argv setrange_shared ! 3)) = PtrSds ''a'' \<and>
   (0::int) \<le> 1 \<and> ''a'' \<noteq> [] \<and> 1 + int (length ''a'') \<le> 512 * 1024 * 1024 \<and>
   dict setrange_shared ''k'' = Some 4 \<and> storedString setrange_shared 4 \<and>
   refcount (heap setrange_shared 4) = 2 \<and>
   ptr (heap append_exclusive (argv append_exclusive ! 1)) = PtrSds ''k'' \<and>
   ptr (heap append_exclusive (argv append_exclusive ! 2)) = PtrSds ''!'' \<and>
   argv append_exclusive ! 2 < brk append_exclusive \<and>
   dict append_exclusive ''k'' = Some 3 \<and> storedString append_exclusive 3 \<and>
   int (length (decodedBytes (heap append_exclusive 3))) + int (length ''!'')
     \<le> 512 * 1024 * 1024 \<and>
   editedOnCopy setrange_shared (setrangeCommand setrange_shared) ''k'' 4 \<and>
   (\<exists>buf. writtenAt (decodedBytes (heap setrange_shared 4)) (nat 1) ''a'' buf \<and>
          stringValue (setrangeCommand setrange_shared) ''k'' = Some buf) \<and>
   editedInPlace append_exclusive (appendCommand append_exclusive) 3 \<and>
   stringValue (appendCommand append_exclusive) ''k'' =
     Some (decodedBytes (heap append_exclusive 3) @ ''!'') \<and>
   stringValue (setrangeCommand setrange_shared) ''k'' = Some ''Hallo'' \<and>
   dict (setrangeCommand setrange_shared) ''k'' = Some 5 \<and>
   heap (setrangeCommand setrange_shared) 4 = rawObject ''Hello'' 1 \<and>
   stringValue (appendCommand append_exclusive) ''k'' = Some ''Hello!'' \<and>
   dict (appendCommand append_exclusive) ''k'' = Some 3"
proof -
  let ?s = "setrange_shared"
  let ?c = "append_exclusive"
  have h1: "ptr (heap ?s (argv ?s ! 1)) = PtrSds ''k''" by code_simp
  have h2: "getLongLongFromObject (Some (heap ?s (argv ?s ! 2))) = Some 1" by code_simp
  have h3: "is_llong 1" by code_simp
  have h4: "ptr (heap ?s (argv ?s ! 3)) = PtrSds ''a''" by code_simp
  have h5: "(0::int) \<le> 1" by simp
  have h6: "''a'' \<noteq> []" by simp
  have h7: "1 + int (length ''a'') \<le> 512 * 1024 * 1024" by simp
  have h8: "dict ?s ''k'' = Some 4" by code_simp
  have h9: "storedString ?s 4" by code_simp
  have k1: "ptr (heap ?c (argv ?c ! 1)) = PtrSds ''k''" by code_simp
  have k2: "ptr (heap ?c (argv ?c ! 2)) = PtrSds ''!''" by code_simp
  have k3: "argv ?c ! 2 < brk ?c" by code_simp
  have k4: "dict ?c ''k'' = Some 3" by code_simp
  have k5: "storedString ?c 3" by code_simp
  have k6: "int (length (decodedBytes (heap ?c 3))) + int (length ''!'') \<le> 512 * 1024 * 1024"
    by code_simp
  have r2: "refcount (heap ?s 4) = 2" by code_simp
  have r1: "refcount (heap ?c 3) = 1 \<and> encoding (heap ?c 3) = REDIS_ENCODING_RAW"
    by code_simp
  have e1: "stringValue (setrangeCommand ?s) ''k'' = Some ''Hallo''" by code_simp
  have e2: "dict (setrangeCommand ?s) ''k'' = Some 5" by code_simp
  have e3: "heap (setrangeCommand ?s) 4 = rawObject ''Hello'' 1" by code_simp
  have e4: "stringValue (appendCommand ?c) ''k'' = Some ''Hello!''" by code_simp
  have e5: "dict (appendCommand ?c) ''k'' = Some 3" by code_simp
  have t: "editedOnCopy ?s (setrangeCommand ?s) ''k'' 4 \<and>
     (\<exists>buf. writtenAt (decodedBytes (heap ?s 4)) (nat 1) ''a'' buf \<and>
            stringValue (setrangeCommand ?s) ''k'' = Some buf) \<and>
     editedInPlace ?c (appendCommand ?c) 3 \<and>
     stringValue (appendCommand ?c) ''k'' = Some (decodedBytes (heap ?c 3) @ ''!'')"
    using destructive_edits_are_guarded [OF h1 h2 h3 h4 h5 h6 h7 h8 h9 k1 k2 k3 k4 k5 k6]
    by (simp add: r1 r2)
  show ?thesis
    using h1 h2 h3 h4 h5 h6 h7 h8 h9 k1 k2 k3 k4 k5 k6 r2 t e1 e2 e3 e4 e5 by blast
qed

text \<open>
  C2: a SETRANGE or APPEND whose resulting length would exceed 512 MiB is to be refused
  with the size error before anything is allocated or written, and the size check is to
  let every other request through. That fails on offsets near the top of the \<^verbatim>\<open>long\<close>
  range: the size check of SETRANGE receives \<^verbatim>\<open>offset + sdslen(value)\<close> computed in
  \<^verbatim>\<open>size_t\<close> and converted to \<^verbatim>\<open>long long\<close>. For \<^verbatim>\<open>SETRANGE k 9223372036854775807 a\<close> on
  a missing key the prospective length is 9223372036854775808, far beyond 512 MiB, yet the
  check sees -9223372036854775808 and lets the request through: the key is created and the
  buffer is grown to that length. On a key that holds \<^verbatim>\<open>x\<close> the same request grows the
  existing value to that length.
\<close>

theorem setrange_size_check_wraps:
  "9223372036854775807 + sdslen ''a'' > 512 * 1024 * 1024 \<and>
   checkStringLength setrange_wrap (to_llong (to_size_t (9223372036854775807 + sdslen ''a'')))
     = (setrange_wrap, REDIS_OK) \<and>
   reply (setrangeCommand setrange_wrap) = [ReplyLongLong (- 9223372036854775808)] \<and>
   dict (setrangeCommand setrange_wrap) ''k'' = Some 4 \<and>
   map_option length (stringValue (setrangeCommand setrange_wrap) ''k'')
     = Some 9223372036854775808 \<and>
   stringValue setrange_wrap_existing ''k'' = Some ''x'' \<and>
   reply (setrangeCommand setrange_wrap_existing) = [ReplyLongLong (- 9223372036854775808)] \<and>
   map_option length (stringValue (setrangeCommand setrange_wrap_existing) ''k'')
     = Some 9223372036854775808"
proof -
  let ?c = "setrange_wrap"
  let ?off = "9223372036854775807 :: int"
  have h1: "ptr (heap ?c (argv ?c ! 1)) = PtrSds ''k''" by code_simp
  have h2: "getLongLongFromObject (Some (heap ?c (argv ?c ! 2))) = Some ?off" by code_simp
  have h3: "is_llong ?off" by code_simp
  have h4: "ptr (heap ?c (argv ?c ! 3)) = PtrSds ''a''" by code_simp
  have h5: "dict ?c ''k'' = None" by code_simp
  have b: "brk ?c = 4" by code_simp
  have r: "reply ?c = []" by code_simp
  have w: "to_llong (to_size_t (?off + sdslen ''a'')) = - 9223372036854775808"
    by (simp add: to_llong_def to_size_t_def sdslen_def)
  then have p: "to_llong (to_size_t (?off + sdslen ''a'')) \<le> 512 * 1024 * 1024" by simp
  have g: "?off + sdslen ''a'' > 512 * 1024 * 1024" by (simp add: sdslen_def)
  have k: "checkStringLength ?c (to_llong (to_size_t (?off + sdslen ''a''))) = (?c, REDIS_OK)"
    using p by (rule checkStringLength_pass)
  let ?c1 = "dbAdd (snd (createObject ?c REDIS_STRING (PtrSds []))) ''k'' (brk ?c)"
  have e: "setrangeCommand ?c = setrangeWrite ?c1 ''k'' (brk ?c) ?off ''a''"
    by (rule setrange_missing_passes [OF h1 h2 h3 h4 _ _ p h5]) simp_all
  have q: "ptr (heap ?c1 (brk ?c)) = PtrSds []"
    by (simp add: dbAdd_def createObject_def)
  from setrangeWrite_grows [OF q, of "''a''" ?off "''k''"] obtain buf where
    wa: "writtenAt [] (nat ?off) ''a'' buf" and
    s: "setrangeWrite ?c1 ''k'' (brk ?c) ?off ''a'' =
          ?c1\<lparr>heap := (heap ?c1)(brk ?c := (heap ?c1 (brk ?c))\<lparr>ptr := PtrSds buf\<rparr>),
              dirty := dirty ?c1 + 1, modified := modified ?c1 @ [''k''],
              reply := reply ?c1 @ [ReplyLongLong (to_llong (int (length buf)))]\<rparr>"
    by auto
  from wa have l: "length buf = 9223372036854775808"
    by (simp add: writtenAt_def)
  then have tl: "to_llong (int (length buf)) = - 9223372036854775808"
    by (simp add: to_llong_def)
  have r1: "reply (setrangeCommand ?c) = [ReplyLongLong (- 9223372036854775808)]"
    unfolding e s using tl r by (simp add: dbAdd_def createObject_def)
  have d1: "dict (setrangeCommand ?c) ''k'' = Some 4"
    unfolding e s using b by (simp add: dbAdd_def createObject_def)
  have v1: "map_option length (stringValue (setrangeCommand ?c) ''k'') = Some 9223372036854775808"
    unfolding e s using l by (simp add: stringValue_def dbAdd_def createObject_def decodedBytes_def)
  let ?d = "setrange_wrap_existing"
  have i1: "ptr (heap ?d (argv ?d ! 1)) = PtrSds ''k''" by code_simp
  have i2: "getLongLongFromObject (Some (heap ?d (argv ?d ! 2))) = Some ?off" by code_simp
  have i4: "ptr (heap ?d (argv ?d ! 3)) = PtrSds ''a''" by code_simp
  have i5: "dict ?d ''k'' = Some 4" by code_simp
  have i6: "otype (heap ?d 4) = REDIS_STRING" by code_simp
  have i7: "refcount (heap ?d 4) = 1" by code_simp
  have i8: "ptr (heap ?d 4) = PtrSds ''x''" by code_simp
  have i9: "reply ?d = []" by code_simp
  have v0: "stringValue ?d ''k'' = Some ''x''" by code_simp
  have u: "unshareStringValue ?d ''k'' 4 = (4, ?d)"
    by (rule unshare_exclusive [OF i7 i8])
  have e2: "setrangeCommand ?d = setrangeWrite ?d ''k'' 4 ?off ''a''"
    using setrange_existing_passes [OF i1 i2 h3 i4 _ _ p i5 i6] by (simp add: u)
  from setrangeWrite_grows [OF i8, of "''a''" ?off "''k''"] obtain buf2 where
    wa2: "writtenAt ''x'' (nat ?off) ''a'' buf2" and
    s2: "setrangeWrite ?d ''k'' 4 ?off ''a'' =
          ?d\<lparr>heap := (heap ?d)(4 := (heap ?d 4)\<lparr>ptr := PtrSds buf2\<rparr>),
              dirty := dirty ?d + 1, modified := modified ?d @ [''k''],
              reply := reply ?d @ [ReplyLongLong (to_llong (int (length buf2)))]\<rparr>"
    by auto
  from wa2 have l2: "length buf2 = 9223372036854775808"
    by (simp add: writtenAt_def)
  then have tl2: "to_llong (int (length buf2)) = - 9223372036854775808"
    by (simp add: to_llong_def)
  have r2: "reply (setrangeCommand ?d) = [ReplyLongLong (- 9223372036854775808)]"
    unfolding e2 s2 using tl2 i9 by simp
  have v2: "map_option length (stringValue (setrangeCommand ?d) ''k'') = Some 9223372036854775808"
    unfolding e2 s2 using l2 i5 by (simp add: stringValue_def decodedBytes_def)
  from g k r1 d1 v1 v0 r2 v2 show ?thesis by simp
qed

text \<open>
  C3: for an existing string value that decodes as the signed 64-bit integer \<^verbatim>\<open>current\<close>
  (a missing key decodes as 0) and every 64-bit \<^verbatim>\<open>incr\<close>, the integer increment replies
  with the overflow error and changes nothing else exactly when the test of the source holds,
  which is exactly when \<^verbatim>\<open>current + incr\<close> is not a signed 64-bit integer. Otherwise the key
  is bound to a newly allocated integer-encoded object that holds \<^verbatim>\<open>current + incr\<close>, no
  object that existed before has its payload changed, and the reply is the decimal text of
  \<^verbatim>\<open>current + incr\<close>.
\<close>

theorem incrDecr_overflow_checked:
  assumes "ptr (heap c (argv c ! 1)) = PtrSds key"
    and "stringOrMissing c key"
    and "getLongLongFromObject (map_option (heap c) (dict c key)) = Some current"
    and "is_llong current" and "is_llong incr"
  shows "if (incr < 0 \<and> current < 0 \<and> incr < LLONG_MIN - current) \<or>
            (incr > 0 \<and> current > 0 \<and> incr > LLONG_MAX - current)
         then \<not> is_llong (current + incr) \<and>
              incrDecrCommand c incr =
                c\<lparr>reply := reply c @ [ReplyError ''increment or decrement would overflow'']\<rparr>
         else is_llong (current + incr) \<and>
              dict (incrDecrCommand c incr) key = Some (brk c) \<and>
              heap (incrDecrCommand c incr) (brk c) =
                \<lparr>otype = REDIS_STRING, ptr = PtrLong (current + incr), refcount = 1\<rparr> \<and>
              (\<forall>b<brk c. ptr (heap (incrDecrCommand c incr) b) = ptr (heap c b)) \<and>
              reply (incrDecrCommand c incr) =
                reply c @ [ReplyColonObj (ll2string (current + incr))]"
proof (cases "(incr < 0 \<and> current < 0 \<and> incr < LLONG_MIN - current) \<or>
            (incr > 0 \<and> current > 0 \<and> incr > LLONG_MAX - current)")
  case True
  with overflow_test_exact [OF assms(4,5)] have n: "\<not> is_llong (current + incr)" by simp
  have "incrDecrCommand c incr =
          c\<lparr>reply := reply c @ [ReplyError ''increment or decrement would overflow'']\<rparr>"
    using n assms(1,3) guard_string_or_missing [OF assms(2)]
    by (simp add: overflow_test_exact [OF assms(4,5)] incrDecrCommand_def sdsOf_def lookupKeyWrite_def
        getLongLongFromObjectOrReply_def addReplyError_def addReply_def)
  with True n show ?thesis by simp
next
  case False
  with overflow_test_exact [OF assms(4,5)] have r: "is_llong (current + incr)" by simp
  then have w: "to_llong (current + incr) = current + incr" by (rule to_llong_id)
  have g: "dict (incrDecrCommand c incr) key = Some (brk c) \<and>
        heap (incrDecrCommand c incr) (brk c) =
          \<lparr>otype = REDIS_STRING, ptr = PtrLong (current + incr), refcount = 1\<rparr> \<and>
        (\<forall>b<brk c. ptr (heap (incrDecrCommand c incr) b) = ptr (heap c b)) \<and>
        reply (incrDecrCommand c incr) =
          reply c @ [ReplyColonObj (ll2string (current + incr))]"
  proof (cases "dict c key")
    case None
    with r assms(1,3) w guard_string_or_missing [OF assms(2)] show ?thesis
      by (simp add: overflow_test_exact [OF assms(4,5)] incrDecrCommand_def sdsOf_def lookupKeyWrite_def
          getLongLongFromObjectOrReply_def createStringObjectFromLongLong_def createObject_def
          dbAdd_def signalModifiedKey_def addReply_def decodedBytes_def Let_def)
  next
    case (Some a)
    with assms(2) have "a < brk c" by (simp add: stringOrMissing_def storedString_def)
    with Some r assms(1,3) w guard_string_or_missing [OF assms(2)] show ?thesis
      by (simp add: overflow_test_exact [OF assms(4,5)] incrDecrCommand_def sdsOf_def lookupKeyWrite_def
          getLongLongFromObjectOrReply_def createStringObjectFromLongLong_def createObject_def
          dbOverwrite_def decrRefCount_def signalModifiedKey_def addReply_def decodedBytes_def
          Let_def)
  qed
  with False r show ?thesis by simp
qed


text \<open>
  \<^verbatim>\<open>INCRBY n 1\<close> on 41 stores and reports 42; an increment of 1 on 9223372036854775807 is
  refused and the value stays.
\<close>

theorem incrDecr_overflow_checked_witness:
  "ptr (heap incr_example (argv incr_example ! 1)) = PtrSds ''n'' \<and>
   stringOrMissing incr_example ''n'' \<and>
   getLongLongFromObject (map_option (heap incr_example) (dict incr_example ''n'')) = Some 41 \<and>
   is_llong 41 \<and> is_llong 1 \<and>
   is_llong (41 + 1) \<and>
   dict (incrDecrCommand incr_example 1) ''n'' = Some (brk incr_example) \<and>
   heap (incrDecrCommand incr_example 1) (brk incr_example) =
     \<lparr>otype = REDIS_STRING, ptr = PtrLong (41 + 1), refcount = 1\<rparr> \<and>
   ptr (heap (incrDecrCommand incr_example 1) 3) = ptr (heap incr_example 3) \<and>
   reply (incrDecrCommand incr_example 1) =
     reply incr_example @ [ReplyColonObj (ll2string (41 + 1))] \<and>
   reply (incrDecrCommand incr_example 1) = [ReplyColonObj ''42''] \<and>
   stringValue (incrDecrCommand incr_example 1) ''n'' = Some ''42'' \<and>
   ptr (heap incr_overflow_example (argv incr_overflow_example ! 1)) = PtrSds ''n'' \<and>
   stringOrMissing incr_overflow_example ''n'' \<and>
   getLongLongFromObject (map_option (heap incr_overflow_example)
       (dict incr_overflow_example ''n'')) = Some 9223372036854775807 \<and>
   is_llong 9223372036854775807 \<and>
   \<not> is_llong (9223372036854775807 + 1) \<and>
   incrDecrCommand incr_overflow_example 1 =
     incr_overflow_example\<lparr>reply := reply incr_overflow_example @
        [ReplyError ''increment or decrement would overflow'']\<rparr> \<and>
   stringValue (incrDecrCommand incr_overflow_example 1) ''n'' = Some ''9223372036854775807''"
proof -
  let ?c = "incr_example"
  let ?d = "incr_overflow_example"
  have h1: "ptr (heap ?c (argv ?c ! 1)) = PtrSds ''n''" by code_simp
  have h2: "stringOrMissing ?c ''n''" by code_simp
  have h3: "getLongLongFromObject (map_option (heap ?c) (dict ?c ''n'')) = Some 41"
    by code_simp
  have h4: "is_llong 41" by code_simp
  have h5: "is_llong 1" by code_simp
  have k1: "ptr (heap ?d (argv ?d ! 1)) = PtrSds ''n''" by code_simp
  have k2: "stringOrMissing ?d ''n''" by code_simp
  have k3: "getLongLongFromObject (map_option (heap ?d) (dict ?d ''n''))
              = Some 9223372036854775807" by code_simp
  have k4: "is_llong 9223372036854775807" by code_simp
  have r: "reply (incrDecrCommand ?c 1) = [ReplyColonObj ''42'']" by code_simp
  have v: "stringValue (incrDecrCommand ?c 1) ''n'' = Some ''42''" by code_simp
  have v': "stringValue (incrDecrCommand ?d 1) ''n'' = Some ''9223372036854775807''"
    by code_simp
  have t: "is_llong (41 + 1) \<and>
     dict (incrDecrCommand ?c 1) ''n'' = Some (brk ?c) \<and>
     heap (incrDecrCommand ?c 1) (brk ?c) =
       \<lparr>otype = REDIS_STRING, ptr = PtrLong (41 + 1), refcount = 1\<rparr> \<and>
     (\<forall>b<brk ?c. ptr (heap (incrDecrCommand ?c 1) b) = ptr (heap ?c b)) \<and>
     reply (incrDecrCommand ?c 1) = reply ?c @ [ReplyColonObj (ll2string (41 + 1))]"
    using incrDecr_overflow_checked [OF h1 h2 h3 h4 h5]
    by (simp add: LLONG_MAX_def LLONG_MIN_def)
  have t': "\<not> is_llong (9223372036854775807 + 1) \<and>
     incrDecrCommand ?d 1 =
       ?d\<lparr>reply := reply ?d @ [ReplyError ''increment or decrement would overflow'']\<rparr>"
    using incrDecr_overflow_checked [OF k1 k2 k3 k4 h5]
    by (simp add: LLONG_MAX_def LLONG_MIN_def)
  have b: "(3::nat) < brk ?c" by code_simp
  with t have o: "ptr (heap (incrDecrCommand ?c 1) 3) = ptr (heap ?c 3)" by blast
  show ?thesis
    using h1 h2 h3 h4 h5 k1 k2 k3 k4 r v v' t t' o by blast
qed

text \<open>
  C4: GETRANGE is to count negative indices from the end, clamp the end index to the last
  byte and return the inclusive range, or nothing when the string is empty or the start is
  beyond the end. That fails on end indices of 2^32 and more: the test that clamps the end
  index casts it to \<^verbatim>\<open>unsigned\<close>, which keeps
  its low 32 bits only. For \<^verbatim>\<open>GETRANGE k 0 4294967296\<close> on \<^verbatim>\<open>Hello World\<close> the cast gives 0,
  the end index is not clamped, and the reply is built from 4294967297 bytes of an 11-byte
  buffer, where the specified range is the whole string.
\<close>

theorem getrange_end_cast_truncates:
  "reply (getrangeCommand getrange_wrap) = [ReplyOutOfBounds 0 4294967297] \<and>
   spec_read_range ''Hello World'' 0 4294967296 = ''Hello World''"
  by code_simp

text \<open>
  C5: for every non-negative offset and non-empty data with \<^verbatim>\<open>offset + len(data)\<close> within
  the size ceiling, SETRANGE on a missing key or on a string value leaves under the key a
  buffer of length \<^verbatim>\<open>max(old_length, offset + len(data))\<close> that holds the data at the
  offset, the old bytes elsewhere and zero bytes in the gap between the old length and the
  offset, and reports that length. A missing key counts as the empty value.
\<close>

theorem setrange_writes_at_offset:
  assumes "ptr (heap c (argv c ! 1)) = PtrSds key"
    and "getLongLongFromObject (Some (heap c (argv c ! 2))) = Some offset" and "is_llong offset"
    and "ptr (heap c (argv c ! 3)) = PtrSds d"
    and "0 \<le> offset" and "d \<noteq> []" and "offset + int (length d) \<le> 512 * 1024 * 1024"
    and "stringOrMissing c key"
    and "old = (case stringValue c key of None \<Rightarrow> [] | Some s \<Rightarrow> s)"
  shows "\<exists>buf. stringValue (setrangeCommand c) key = Some buf \<and>
           writtenAt old (nat offset) d buf \<and>
           reply (setrangeCommand c) =
             reply c @ [ReplyLongLong (max (int (length old)) (offset + int (length d)))]"
  using assms by (rule setrange_value)

text \<open>
  The request \<^verbatim>\<open>SETRANGE k 5 Hi\<close> on a missing key: the value is five zero bytes followed
  by \<^verbatim>\<open>Hi\<close>, and the reply is 7.
\<close>

theorem setrange_writes_at_offset_witness:
  "ptr (heap setrange_gap (argv setrange_gap ! 1)) = PtrSds ''k'' \<and>
   getLongLongFromObject (Some (heap setrange_gap (argv setrange_gap ! 2))) = Some 5 \<and>
   is_llong 5 \<and>
   ptr (heap setrange_gap (argv setrange_gap ! 3)) = PtrSds ''Hi'' \<and>
   (0::int) \<le> 5 \<and> ''Hi'' \<noteq> [] \<and> 5 + int (length ''Hi'') \<le> 512 * 1024 * 1024 \<and>
   stringOrMissing setrange_gap ''k'' \<and>
   stringValue setrange_gap ''k'' = None \<and>
   (\<exists>buf. stringValue (setrangeCommand setrange_gap) ''k'' = Some buf \<and>
      writtenAt [] (nat 5) ''Hi'' buf \<and>
      reply (setrangeCommand setrange_gap) =
        reply setrange_gap @
        [ReplyLongLong (max (int (length ([]::sds))) (5 + int (length ''Hi'')))]) \<and>
   stringValue (setrangeCommand setrange_gap) ''k'' =
     Some [CHR 0x00, CHR 0x00, CHR 0x00, CHR 0x00, CHR 0x00, CHR ''H'', CHR ''i''] \<and>
   reply (setrangeCommand setrange_gap) = [ReplyLongLong 7]"
proof -
  let ?c = "setrange_gap"
  have h1: "ptr (heap ?c (argv ?c ! 1)) = PtrSds ''k''" by code_simp
  have h2: "getLongLongFromObject (Some (heap ?c (argv ?c ! 2))) = Some 5" by code_simp
  have h3: "is_llong 5" by code_simp
  have h4: "ptr (heap ?c (argv ?c ! 3)) = PtrSds ''Hi''" by code_simp
  have h5: "(0::int) \<le> 5" by simp
  have h6: "''Hi'' \<noteq> []" by simp
  have h7: "5 + int (length ''Hi'') \<le> 512 * 1024 * 1024" by simp
  have h8: "stringOrMissing ?c ''k''" by code_simp
  have h9: "stringValue ?c ''k'' = None" by code_simp
  have h9': "[] = (case stringValue ?c ''k'' of None \<Rightarrow> [] | Some s \<Rightarrow> s)"
    by (simp add: h9)
  have v: "stringValue (setrangeCommand ?c) ''k'' =
     Some [CHR 0x00, CHR 0x00, CHR 0x00, CHR 0x00, CHR 0x00, CHR ''H'', CHR ''i'']" by code_simp
  have r: "reply (setrangeCommand ?c) = [ReplyLongLong 7]" by code_simp
  note t = setrange_writes_at_offset [OF h1 h2 h3 h4 h5 h6 h7 h8 h9']
  show ?thesis
    using h1 h2 h3 h4 h5 h6 h7 h8 h9 t v r by blast
qed

text \<open>
  C6: after every successful INCRBYFLOAT the command that is propagated is
  \<^verbatim>\<open>SET key text\<close>, where \<^verbatim>\<open>text\<close> is the formatted sum, and its last argument is the very
  object that the key is now bound to; the increment is no longer among the arguments.
\<close>

theorem incrbyfloat_propagates_set:
  assumes "ptr (heap c (argv c ! 1)) = PtrSds key"
    and "stringOrMissing c key"
    and "getLongDoubleFromObject ld (map_option (heap c) (dict c key)) = Some current"
    and "getLongDoubleFromObject ld (Some (heap c (argv c ! 2))) = Some incr"
    and "\<not> ld_isnan ld (ld_add ld current incr)" and "\<not> ld_isinf ld (ld_add ld current incr)"
    and "length (argv c) = 3" and "argv c ! 1 < brk c"
  shows "propagated (incrbyfloatCommand ld c) =
           [''SET'', key, ld_format ld (ld_add ld current incr)] \<and>
         dict (incrbyfloatCommand ld c) key = Some (argv (incrbyfloatCommand ld c) ! 2) \<and>
         stringValue (incrbyfloatCommand ld c) key =
           Some (ld_format ld (ld_add ld current incr))"
proof -
  note s = incrbyfloat_success [OF assms(1-6) refl refl]
  from assms(7) obtain a0 a1 a2 where av: "argv c = [a0, a1, a2]"
    by (cases "argv c"; cases "tl (argv c)"; cases "tl (tl (argv c))") auto
  with assms(8) have a1: "a1 \<noteq> brk c" "a1 \<noteq> Suc (brk c)" by simp_all
  from av assms(1) have k: "ptr (heap c a1) = PtrSds key" by simp
  have av': "argv (incrbyfloatCommand ld c) = [Suc (brk c), a1, brk c]"
    by (simp add: s(2) av)
  have p: "propagated (incrbyfloatCommand ld c) =
           [''SET'', key, ld_format ld (ld_add ld current incr)]"
    by (simp add: propagated_def av' decodedBytes_def s(4) a1 k)
  have d: "dict (incrbyfloatCommand ld c) key = Some (argv (incrbyfloatCommand ld c) ! 2)"
    by (simp add: av' s(1))
  have v: "stringValue (incrbyfloatCommand ld c) key =
             Some (ld_format ld (ld_add ld current incr))"
    by (simp add: stringValue_def decodedBytes_def s(1) s(4))
  from p d v show ?thesis by simp
qed


text \<open>On whole numbers: \<^verbatim>\<open>INCRBYFLOAT x 5\<close> on 37 is propagated as \<^verbatim>\<open>SET x 42\<close>.\<close>

theorem incrbyfloat_propagates_set_witness:
  "ptr (heap incrbyfloat_example (argv incrbyfloat_example ! 1)) = PtrSds ''x'' \<and>
   stringOrMissing incrbyfloat_example ''x'' \<and>
   getLongDoubleFromObject whole_longdouble
     (map_option (heap incrbyfloat_example) (dict incrbyfloat_example ''x'')) = Some (Finite 37) \<and>
   getLongDoubleFromObject whole_longdouble
     (Some (heap incrbyfloat_example (argv incrbyfloat_example ! 2))) = Some (Finite 5) \<and>
   \<not> ld_isnan whole_longdouble (ld_add whole_longdouble (Finite 37) (Finite 5)) \<and>
   \<not> ld_isinf whole_longdouble (ld_add whole_longdouble (Finite 37) (Finite 5)) \<and>
   length (argv incrbyfloat_example) = 3 \<and>
   argv incrbyfloat_example ! 1 < brk incrbyfloat_example \<and>
   propagated incrbyfloat_example = [''INCRBYFLOAT'', ''x'', ''5''] \<and>
   propagated (incrbyfloatCommand whole_longdouble incrbyfloat_example) =
     [''SET'', ''x'', ''42''] \<and>
   dict (incrbyfloatCommand whole_longdouble incrbyfloat_example) ''x'' =
     Some (argv (incrbyfloatCommand whole_longdouble incrbyfloat_example) ! 2) \<and>
   stringValue (incrbyfloatCommand whole_longdouble incrbyfloat_example) ''x'' = Some ''42''"
proof -
  let ?c = "incrbyfloat_example"
  let ?ld = "whole_longdouble"
  have h1: "ptr (heap ?c (argv ?c ! 1)) = PtrSds ''x''" by code_simp
  have h2: "stringOrMissing ?c ''x''" by code_simp
  have h3: "getLongDoubleFromObject ?ld (map_option (heap ?c) (dict ?c ''x'')) = Some (Finite 37)"
    by code_simp
  have h4: "getLongDoubleFromObject ?ld (Some (heap ?c (argv ?c ! 2))) = Some (Finite 5)"
    by code_simp
  have h5: "\<not> ld_isnan ?ld (ld_add ?ld (Finite 37) (Finite 5))" by code_simp
  have h6: "\<not> ld_isinf ?ld (ld_add ?ld (Finite 37) (Finite 5))" by code_simp
  have h7: "length (argv ?c) = 3" by code_simp
  have h8: "argv ?c ! 1 < brk ?c" by code_simp
  have b: "propagated ?c = [''INCRBYFLOAT'', ''x'', ''5'']" by code_simp
  have e: "ld_format ?ld (ld_add ?ld (Finite 37) (Finite 5)) = ''42''" by code_simp
  note t = incrbyfloat_propagates_set [OF h1 h2 h3 h4 h5 h6 h7 h8, unfolded e]
  show ?thesis
    using h1 h2 h3 h4 h5 h6 h7 h8 b t by blast
qed

text \<open>
  C7: for an existing value and an increment that both read as finite numbers (a missing key
  reads as 0), INCRBYFLOAT replies with the error and changes nothing else exactly when the
  sum is NaN or infinite; otherwise the formatted sum is the new value of the key and the
  reply. The arithmetic of \<^verbatim>\<open>long double\<close> is the parameter \<^verbatim>\<open>ld\<close>.
\<close>

theorem incrbyfloat_overflow_checked:
  assumes "ptr (heap c (argv c ! 1)) = PtrSds key"
    and "stringOrMissing c key"
    and "getLongDoubleFromObject ld (map_option (heap c) (dict c key)) = Some current"
    and "getLongDoubleFromObject ld (Some (heap c (argv c ! 2))) = Some incr"
  shows "if ld_isnan ld (ld_add ld current incr) \<or> ld_isinf ld (ld_add ld current incr)
         then incrbyfloatCommand ld c =
                c\<lparr>reply := reply c @ [ReplyError ''increment would produce NaN or Infinity'']\<rparr>
         else stringValue (incrbyfloatCommand ld c) key =
                Some (ld_format ld (ld_add ld current incr)) \<and>
              reply (incrbyfloatCommand ld c) =
                reply c @ [ReplyBulk (ld_format ld (ld_add ld current incr))]"
proof (cases "ld_isnan ld (ld_add ld current incr) \<or> ld_isinf ld (ld_add ld current incr)")
  case True
  from incrbyfloat_failure [OF assms True] True show ?thesis by simp
next
  case False
  then have f: "\<not> ld_isnan ld (ld_add ld current incr)" "\<not> ld_isinf ld (ld_add ld current incr)"
    by simp_all
  note s = incrbyfloat_success [OF assms f refl refl]
  have "stringValue (incrbyfloatCommand ld c) key = Some (ld_format ld (ld_add ld current incr))"
    by (simp add: stringValue_def decodedBytes_def s(1) s(4))
  with s(3) False show ?thesis by simp
qed

text \<open>
  On whole numbers: 37 incremented by 5 is stored and reported as 42; 9223372036854775807
  incremented by 1 is infinite there, and is refused with the value left as it was.
\<close>

theorem incrbyfloat_overflow_checked_witness:
  "ptr (heap incrbyfloat_example (argv incrbyfloat_example ! 1)) = PtrSds ''x'' \<and>
   stringOrMissing incrbyfloat_example ''x'' \<and>
   getLongDoubleFromObject whole_longdouble
     (map_option (heap incrbyfloat_example) (dict incrbyfloat_example ''x'')) = Some (Finite 37) \<and>
   getLongDoubleFromObject whole_longdouble
     (Some (heap incrbyfloat_example (argv incrbyfloat_example ! 2))) = Some (Finite 5) \<and>
   stringValue (incrbyfloatCommand whole_longdouble incrbyfloat_example) ''x'' = Some ''42'' \<and>
   reply (incrbyfloatCommand whole_longdouble incrbyfloat_example) =
     reply incrbyfloat_example @ [ReplyBulk ''42''] \<and>
   ptr (heap incrbyfloat_overflow_example (argv incrbyfloat_overflow_example ! 1)) = PtrSds ''x'' \<and>
   stringOrMissing incrbyfloat_overflow_example ''x'' \<and>
   getLongDoubleFromObject whole_longdouble
     (map_option (heap incrbyfloat_overflow_example) (dict incrbyfloat_overflow_example ''x''))
     = Some (Finite 9223372036854775807) \<and>
   getLongDoubleFromObject whole_longdouble
     (Some (heap incrbyfloat_overflow_example (argv incrbyfloat_overflow_example ! 2)))
     = Some (Finite 1) \<and>
   ld_isinf whole_longdouble (ld_add whole_longdouble (Finite 9223372036854775807) (Finite 1)) \<and>
   incrbyfloatCommand whole_longdouble incrbyfloat_overflow_example =
     incrbyfloat_overflow_example\<lparr>reply := reply incrbyfloat_overflow_example @
        [ReplyError ''increment would produce NaN or Infinity'']\<rparr>"
proof -
  let ?c = "incrbyfloat_example"
  let ?d = "incrbyfloat_overflow_example"
  let ?ld = "whole_longdouble"
  have h1: "ptr (heap ?c (argv ?c ! 1)) = PtrSds ''x''" by code_simp
  have h2: "stringOrMissing ?c ''x''" by code_simp
  have h3: "getLongDoubleFromObject ?ld (map_option (heap ?c) (dict ?c ''x'')) = Some (Finite 37)"
    by code_simp
  have h4: "getLongDoubleFromObject ?ld (Some (heap ?c (argv ?c ! 2))) = Some (Finite 5)"
    by code_simp
  have k1: "ptr (heap ?d (argv ?d ! 1)) = PtrSds ''x''" by code_simp
  have k2: "stringOrMissing ?d ''x''" by code_simp
  have k3: "getLongDoubleFromObject ?ld (map_option (heap ?d) (dict ?d ''x''))
              = Some (Finite 9223372036854775807)" by code_simp
  have k4: "getLongDoubleFromObject ?ld (Some (heap ?d (argv ?d ! 2))) = Some (Finite 1)"
    by code_simp
  have e1: "ld_add ?ld (Finite 37) (Finite 5) = Finite 42" by code_simp
  have e2: "ld_format ?ld (Finite 42) = ''42''" by code_simp
  have e3: "\<not> ld_isnan ?ld (Finite 42)" "\<not> ld_isinf ?ld (Finite 42)" by code_simp+
  have e4: "ld_isinf ?ld (ld_add ?ld (Finite 9223372036854775807) (Finite 1))" by code_simp
  have t: "stringValue (incrbyfloatCommand ?ld ?c) ''x'' = Some ''42'' \<and>
           reply (incrbyfloatCommand ?ld ?c) = reply ?c @ [ReplyBulk ''42'']"
    using incrbyfloat_overflow_checked [OF h1 h2 h3 h4] by (simp add: e1 e2 e3)
  have t': "incrbyfloatCommand ?ld ?d =
              ?d\<lparr>reply := reply ?d @ [ReplyError ''increment would produce NaN or Infinity'']\<rparr>"
    using incrbyfloat_overflow_checked [OF k1 k2 k3 k4] e4 by simp
  show ?thesis
    using h1 h2 h3 h4 k1 k2 k3 k4 e4 t t' by blast
qed

text \<open>
  C8: SETRANGE with empty data changes nothing but the client's output: the state after the
  call is the state before it with one more reply, which is 0 when the key is missing and the
  current length of the value when the key holds a string.
\<close>

theorem setrange_empty_data:
  assumes "ptr (heap c (argv c ! 1)) = PtrSds key"
    and "getLongLongFromObject (Some (heap c (argv c ! 2))) = Some offset"
    and "is_llong offset" and "0 \<le> offset"
    and "ptr (heap c (argv c ! 3)) = PtrSds []"
    and "stringOrMissing c key"
  shows "setrangeCommand c =
           c\<lparr>reply := reply c @
              [ReplyLongLong (case dict c key of
                                None \<Rightarrow> 0
                              | Some a \<Rightarrow> stringObjectLen (heap c a))]\<rparr>"
  using assms by (rule setrange_empty)

text \<open>
  The request \<^verbatim>\<open>SETRANGE k 3 ""\<close> on a key that holds \<^verbatim>\<open>Hello\<close>: the reply is 5 and the
  value stays \<^verbatim>\<open>Hello\<close>.
\<close>

theorem setrange_empty_data_witness:
  "ptr (heap setrange_empty_present (argv setrange_empty_present ! 1)) = PtrSds ''k'' \<and>
   getLongLongFromObject (Some (heap setrange_empty_present (argv setrange_empty_present ! 2)))
     = Some 3 \<and>
   is_llong 3 \<and> (0::int) \<le> 3 \<and>
   ptr (heap setrange_empty_present (argv setrange_empty_present ! 3)) = PtrSds [] \<and>
   stringOrMissing setrange_empty_present ''k'' \<and>
   setrangeCommand setrange_empty_present =
     setrange_empty_present\<lparr>reply := reply setrange_empty_present @
        [ReplyLongLong (case dict setrange_empty_present ''k'' of
                          None \<Rightarrow> 0
                        | Some a \<Rightarrow> stringObjectLen (heap setrange_empty_present a))]\<rparr> \<and>
   reply (setrangeCommand setrange_empty_present) = [ReplyLongLong 5] \<and>
   stringValue (setrangeCommand setrange_empty_present) ''k'' = Some ''Hello''"
proof -
  let ?c = "setrange_empty_present"
  have h1: "ptr (heap ?c (argv ?c ! 1)) = PtrSds ''k''" by code_simp
  have h2: "getLongLongFromObject (Some (heap ?c (argv ?c ! 2))) = Some 3" by code_simp
  have h3: "is_llong 3" by code_simp
  have h4: "(0::int) \<le> 3" by simp
  have h5: "ptr (heap ?c (argv ?c ! 3)) = PtrSds []" by code_simp
  have h6: "stringOrMissing ?c ''k''" by code_simp
  have r: "reply (setrangeCommand ?c) = [ReplyLongLong 5]" by code_simp
  have v: "stringValue (setrangeCommand ?c) ''k'' = Some ''Hello''" by code_simp
  note t = setrange_empty_data [OF h1 h2 h3 h4 h5 h6]
  show ?thesis
    using h1 h2 h3 h4 h5 h6 t r v by blast
qed

text \<open>
  C9: APPEND against SETRANGE at the offset of the current length, on the same value and
  the same data (each at most 512 MiB long). On an existing value whose new length would
  exceed the ceiling both commands are refused with the same error and change nothing else.
  Otherwise APPEND leaves the old bytes followed by the data under the key (the data alone
  on a missing key, where the argument is installed as it is, in compact form when it is a
  canonical integer) and reports the old length plus the length of the data; SETRANGE
  reports the same length, and leaves the same bytes under the key whenever it writes at
  all, that is unless the key is missing and the data is empty.
\<close>

theorem append_refines_setrange:
  assumes "ptr (heap c (argv c ! 1)) = PtrSds key"
    and "ptr (heap c (argv c ! 2)) = PtrSds d"
    and "2 < length (argv c)" and "argv c ! 2 < brk c"
    and "stringOrMissing c key"
    and "old = (case stringValue c key of None \<Rightarrow> [] | Some v \<Rightarrow> v)"
    and "int (length old) \<le> 512 * 1024 * 1024" and "int (length d) \<le> 512 * 1024 * 1024"
    and "ptr (heap s (argv s ! 1)) = PtrSds key"
    and "getLongLongFromObject (Some (heap s (argv s ! 2))) = Some (int (length old))"
    and "ptr (heap s (argv s ! 3)) = PtrSds d"
    and "stringOrMissing s key"
    and "stringValue s key = stringValue c key" and "reply s = reply c"
  shows "if dict c key \<noteq> None \<and> int (length old) + int (length d) > 512 * 1024 * 1024
         then appendCommand c =
                c\<lparr>reply := reply c @
                     [ReplyError ''string exceeds maximum allowed size (512MB)'']\<rparr> \<and>
              setrangeCommand s =
                s\<lparr>reply := reply s @
                     [ReplyError ''string exceeds maximum allowed size (512MB)'']\<rparr>
         else stringValue (appendCommand c) key = Some (old @ d) \<and>
              reply (appendCommand c) =
                reply c @ [ReplyLongLong (int (length old) + int (length d))] \<and>
              reply (setrangeCommand s) = reply (appendCommand c) \<and>
              (d \<noteq> [] \<or> dict c key \<noteq> None \<longrightarrow>
                 stringValue (setrangeCommand s) key = stringValue (appendCommand c) key)"
proof -
  have ll: "is_llong (int (length old))"
    using assms(7) by (simp add: is_llong_def LLONG_MIN_def LLONG_MAX_def)
  have nn: "0 \<le> int (length old)" by simp
  have olds: "old = (case stringValue s key of None \<Rightarrow> [] | Some v \<Rightarrow> v)"
    using assms(6,13) by simp
  have dl: "int (length d) \<le> LLONG_MAX" using assms(8) by (simp add: LLONG_MAX_def)
  show ?thesis
  proof (cases "dict c key")
    case None
    then have o: "old = []" using assms(6) by (simp add: stringValue_def)
    from None assms(13) have sn: "dict s key = None" by (simp add: stringValue_def)
    note a = append_missing [OF assms(1,2) None assms(3) dl]
    have va: "stringValue (appendCommand c) key = Some d"
      using a(1,2) by (simp add: stringValue_def)
    have ra: "reply (appendCommand c) = reply c @ [ReplyLongLong (int (length d))]"
      by (rule a(3))
    have rs: "reply (setrangeCommand s) = reply (appendCommand c)"
    proof (cases "d = []")
      case True
      with assms(9,10,11) ll sn o have "setrangeCommand s = s\<lparr>reply := reply s @ [ReplyLongLong 0]\<rparr>"
        using setrange_empty [OF assms(9,10) ll nn _ assms(12)] by simp
      with True ra assms(14) show ?thesis by simp
    next
      case False
      from setrange_value [OF assms(9,10) ll assms(11) nn False _ assms(12) olds]
        assms(8) o ra assms(14)
      show ?thesis by auto
    qed
    have vs: "stringValue (setrangeCommand s) key = stringValue (appendCommand c) key"
      if "d \<noteq> []"
    proof -
      from setrange_value [OF assms(9,10) ll assms(11) nn that _ assms(12) olds] assms(8) o
      obtain buf where "stringValue (setrangeCommand s) key = Some buf"
        "writtenAt [] 0 d buf" by auto
      with va show ?thesis by (simp add: writtenAt_empty)
    qed
    from None o va ra rs vs show ?thesis by simp
  next
    case (Some a)
    with assms(5) have st: "storedString c a" by (simp add: stringOrMissing_def)
    from Some assms(6) have o: "old = decodedBytes (heap c a)" by (simp add: stringValue_def)
    from Some assms(13) obtain a2 where sa: "dict s key = Some a2"
      by (cases "dict s key") (simp_all add: stringValue_def)
    with assms(12) have st2: "storedString s a2" by (simp add: stringOrMissing_def)
    from sa olds have o2: "old = decodedBytes (heap s a2)" by (simp add: stringValue_def)
    from st st2 have ty: "otype (heap c a) = REDIS_STRING" "ptr (heap c a) \<noteq> PtrOther"
      "otype (heap s a2) = REDIS_STRING" "ptr (heap s a2) \<noteq> PtrOther"
      by (simp_all add: storedString_def)
    show ?thesis
    proof (cases "int (length old) + int (length d) > 512 * 1024 * 1024")
      case True
      have n: "to_llong (to_size_t (int (length old) + int (length d))) =
                 int (length old) + int (length d)"
        using assms(7,8) by (intro size_arg_id) (simp_all add: LLONG_MAX_def)
      have "appendCommand c =
              c\<lparr>reply := reply c @ [ReplyError ''string exceeds maximum allowed size (512MB)'']\<rparr>"
        using True n o ty(2)
        by (intro append_too_large [OF assms(1,2) Some ty(1)])
           (simp add: stringObjectLen_decoded sdslen_def)
      moreover have "d \<noteq> []" using True assms(7) by auto
      then have "setrangeCommand s =
              s\<lparr>reply := reply s @ [ReplyError ''string exceeds maximum allowed size (512MB)'']\<rparr>"
        using True n sa ty(3)
        by (intro setrange_too_large [OF assms(9,10) ll assms(11) nn])
           (simp_all add: sdslen_def)
      ultimately show ?thesis using True Some by simp
    next
      case False
      then have le: "int (length (decodedBytes (heap c a))) + int (length d) \<le> 512 * 1024 * 1024"
        using o by simp
      obtain a' c' where u: "unshareStringValue c key a = (a', c')"
        by (cases "unshareStringValue c key a")
      note f = append_existing_state [OF assms(1,2,4) Some st le u]
      have va: "stringValue (appendCommand c) key = Some (old @ d)"
        using guarded_edit_value [OF Some st u f] o by simp
      have ra: "reply (appendCommand c) =
                  reply c @ [ReplyLongLong (int (length old) + int (length d))]"
        using unshare_facts(3) [OF Some st u] o by (simp add: f)
      have "stringValue (setrangeCommand s) key = Some (old @ d) \<and>
            reply (setrangeCommand s) =
              reply s @ [ReplyLongLong (int (length old) + int (length d))]"
      proof (cases "d = []")
        case True
        have "setrangeCommand s =
                s\<lparr>reply := reply s @ [ReplyLongLong (stringObjectLen (heap s a2))]\<rparr>"
          using setrange_empty [OF assms(9,10) ll nn _ assms(12)] True assms(11) sa by simp
        with True sa o2 ty(4) show ?thesis
          by (simp add: stringValue_def stringObjectLen_decoded)
      next
        case d: False
        from False have le2: "int (length old) + int (length d) \<le> 512 * 1024 * 1024" by simp
        from setrange_value [OF assms(9,10) ll assms(11) nn d le2 assms(12) olds]
        obtain buf where b: "stringValue (setrangeCommand s) key = Some buf"
          "writtenAt old (length old) d buf"
          "reply (setrangeCommand s) =
             reply s @ [ReplyLongLong (max (int (length old)) (int (length old) + int (length d)))]"
          by auto
        from b(2) have "buf = old @ d" by (rule writtenAt_append)
        with b(1,3) show ?thesis by (simp add: max_def)
      qed
      with va ra assms(14) False show ?thesis by simp
    qed
  qed
qed

text \<open>
  \<^verbatim>\<open>APPEND k " World"\<close> and \<^verbatim>\<open>SETRANGE k 5 " World"\<close> on \<^verbatim>\<open>Hello\<close> both leave
  \<^verbatim>\<open>Hello World\<close> and reply 11; \<^verbatim>\<open>APPEND k 123\<close> and \<^verbatim>\<open>SETRANGE k 0 123\<close> on a missing key
  both leave the bytes \<^verbatim>\<open>123\<close> and reply 3, the first as an integer-encoded object.
\<close>

theorem append_refines_setrange_witness:
  "ptr (heap append_example (argv append_example ! 1)) = PtrSds ''k'' \<and>
   ptr (heap append_example (argv append_example ! 2)) = PtrSds '' World'' \<and>
   2 < length (argv append_example) \<and>
   argv append_example ! 2 < brk append_example \<and>
   stringOrMissing append_example ''k'' \<and>
   stringValue append_example ''k'' = Some ''Hello'' \<and>
   int (length ''Hello'') \<le> 512 * 1024 * 1024 \<and>
   int (length '' World'') \<le> 512 * 1024 * 1024 \<and>
   ptr (heap setrange_at_end (argv setrange_at_end ! 1)) = PtrSds ''k'' \<and>
   getLongLongFromObject (Some (heap setrange_at_end (argv setrange_at_end ! 2)))
     = Some (int (length ''Hello'')) \<and>
   ptr (heap setrange_at_end (argv setrange_at_end ! 3)) = PtrSds '' World'' \<and>
   stringOrMissing setrange_at_end ''k'' \<and>
   stringValue setrange_at_end ''k'' = stringValue append_example ''k'' \<and>
   reply setrange_at_end = reply append_example \<and>
   stringValue (appendCommand append_example) ''k'' = Some (''Hello'' @ '' World'') \<and>
   reply (appendCommand append_example) =
     reply append_example @ [ReplyLongLong (int (length ''Hello'') + int (length '' World''))] \<and>
   reply (setrangeCommand setrange_at_end) = reply (appendCommand append_example) \<and>
   stringValue (setrangeCommand setrange_at_end) ''k'' =
     stringValue (appendCommand append_example) ''k'' \<and>
   reply (appendCommand append_example) = [ReplyLongLong 11] \<and>
   stringValue (appendCommand append_missing_example) ''k'' = Some ''123'' \<and>
   reply (appendCommand append_missing_example) = [ReplyLongLong 3] \<and>
   reply (setrangeCommand setrange_missing_example) =
     reply (appendCommand append_missing_example) \<and>
   stringValue (setrangeCommand setrange_missing_example) ''k'' =
     stringValue (appendCommand append_missing_example) ''k'' \<and>
   ptr (heap (appendCommand append_missing_example) 2) = PtrLong 123"
proof -
  let ?c = "append_example"
  let ?s = "setrange_at_end"
  let ?c2 = "append_missing_example"
  let ?s2 = "setrange_missing_example"
  have h1: "ptr (heap ?c (argv ?c ! 1)) = PtrSds ''k''" by code_simp
  have h2: "ptr (heap ?c (argv ?c ! 2)) = PtrSds '' World''" by code_simp
  have h3: "2 < length (argv ?c)" by code_simp
  have h4: "argv ?c ! 2 < brk ?c" by code_simp
  have h5: "stringOrMissing ?c ''k''" by code_simp
  have v0: "stringValue ?c ''k'' = Some ''Hello''" by code_simp
  have h6: "''Hello'' = (case stringValue ?c ''k'' of None \<Rightarrow> [] | Some v \<Rightarrow> v)"
    by (simp add: v0)
  have h7: "int (length ''Hello'') \<le> 512 * 1024 * 1024" by simp
  have h8: "int (length '' World'') \<le> 512 * 1024 * 1024" by simp
  have h9: "ptr (heap ?s (argv ?s ! 1)) = PtrSds ''k''" by code_simp
  have h10: "getLongLongFromObject (Some (heap ?s (argv ?s ! 2))) = Some (int (length ''Hello''))"
    by code_simp
  have h11: "ptr (heap ?s (argv ?s ! 3)) = PtrSds '' World''" by code_simp
  have h12: "stringOrMissing ?s ''k''" by code_simp
  have h13: "stringValue ?s ''k'' = stringValue ?c ''k''" by code_simp
  have h14: "reply ?s = reply ?c" by code_simp
  have dk: "dict ?c ''k'' \<noteq> None" by code_simp
  have t: "stringValue (appendCommand ?c) ''k'' = Some (''Hello'' @ '' World'') \<and>
     reply (appendCommand ?c) =
       reply ?c @ [ReplyLongLong (int (length ''Hello'') + int (length '' World''))] \<and>
     reply (setrangeCommand ?s) = reply (appendCommand ?c) \<and>
     stringValue (setrangeCommand ?s) ''k'' = stringValue (appendCommand ?c) ''k''"
    using append_refines_setrange [OF h1 h2 h3 h4 h5 h6 h7 h8 h9 h10 h11 h12 h13 h14] dk
    by simp
  have k1: "ptr (heap ?c2 (argv ?c2 ! 1)) = PtrSds ''k''" by code_simp
  have k2: "ptr (heap ?c2 (argv ?c2 ! 2)) = PtrSds ''123''" by code_simp
  have k3: "2 < length (argv ?c2)" by code_simp
  have k4: "argv ?c2 ! 2 < brk ?c2" by code_simp
  have k5: "stringOrMissing ?c2 ''k''" by code_simp
  have w0: "stringValue ?c2 ''k'' = None" by code_simp
  have k6: "[] = (case stringValue ?c2 ''k'' of None \<Rightarrow> [] | Some v \<Rightarrow> v)"
    by (simp add: w0)
  have k7: "int (length ([]::sds)) \<le> 512 * 1024 * 1024" by simp
  have k8: "int (length ''123'') \<le> 512 * 1024 * 1024" by simp
  have k9: "ptr (heap ?s2 (argv ?s2 ! 1)) = PtrSds ''k''" by code_simp
  have k10: "getLongLongFromObject (Some (heap ?s2 (argv ?s2 ! 2))) = Some (int (length ([]::sds)))"
    by code_simp
  have k11: "ptr (heap ?s2 (argv ?s2 ! 3)) = PtrSds ''123''" by code_simp
  have k12: "stringOrMissing ?s2 ''k''" by code_simp
  have k13: "stringValue ?s2 ''k'' = stringValue ?c2 ''k''" by code_simp
  have k14: "reply ?s2 = reply ?c2" by code_simp
  have dn: "dict ?c2 ''k'' = None" by code_simp
  have rn: "reply ?c2 = []" by code_simp
  have t2: "stringValue (appendCommand ?c2) ''k'' = Some ''123'' \<and>
     reply (appendCommand ?c2) = [ReplyLongLong 3] \<and>
     reply (setrangeCommand ?s2) = reply (appendCommand ?c2) \<and>
     stringValue (setrangeCommand ?s2) ''k'' = stringValue (appendCommand ?c2) ''k''"
    using append_refines_setrange [OF k1 k2 k3 k4 k5 k6 k7 k8 k9 k10 k11 k12 k13 k14] dn rn
    by simp
  have r: "reply (appendCommand ?c) = [ReplyLongLong 11]" by code_simp
  have i: "ptr (heap (appendCommand ?c2) 2) = PtrLong 123" by code_simp
  show ?thesis
    using h1 h2 h3 h4 h5 v0 h7 h8 h9 h10 h11 h12 h13 h14 t t2 r i by blast
qed

text \<open>
  C10: SETRANGE with empty data on a missing key leaves the whole state as it was, but for
  the reply 0 added to the client's output: no key is created, nothing is signalled and the
  dirty counter stays. This holds for every non-negative offset, since the test for empty
  data comes before the size check.
\<close>

theorem setrange_empty_missing_key:
  assumes "ptr (heap c (argv c ! 1)) = PtrSds key"
    and "getLongLongFromObject (Some (heap c (argv c ! 2))) = Some offset"
    and "is_llong offset" and "0 \<le> offset"
    and "ptr (heap c (argv c ! 3)) = PtrSds []"
    and "dict c key = None"
  shows "setrangeCommand c = c\<lparr>reply := reply c @ [ReplyLongLong 0]\<rparr>"
  using assms
  by (simp add: setrangeCommand_def getLongFromObjectOrReply_ok sdsOf_def sdslen_def
      lookupKeyWrite_def addReply_def shared_czero_def)

text \<open>
  The request \<^verbatim>\<open>SETRANGE k 1099511627776 ""\<close> on a missing key: the offset alone is
  beyond 512 MiB, and the reply is 0 with no key created.
\<close>

theorem setrange_empty_missing_key_witness:
  "ptr (heap setrange_empty_missing (argv setrange_empty_missing ! 1)) = PtrSds ''k'' \<and>
   getLongLongFromObject (Some (heap setrange_empty_missing (argv setrange_empty_missing ! 2)))
     = Some 1099511627776 \<and>
   is_llong 1099511627776 \<and> (0::int) \<le> 1099511627776 \<and>
   (512 * 1024 * 1024 :: int) < 1099511627776 \<and>
   ptr (heap setrange_empty_missing (argv setrange_empty_missing ! 3)) = PtrSds [] \<and>
   dict setrange_empty_missing ''k'' = None \<and>
   setrangeCommand setrange_empty_missing =
     setrange_empty_missing\<lparr>reply := reply setrange_empty_missing @ [ReplyLongLong 0]\<rparr> \<and>
   dict (setrangeCommand setrange_empty_missing) ''k'' = None \<and>
   modified (setrangeCommand setrange_empty_missing) = [] \<and>
   dirty (setrangeCommand setrange_empty_missing) = 0"
proof -
  let ?c = "setrange_empty_missing"
  have h1: "ptr (heap ?c (argv ?c ! 1)) = PtrSds ''k''" by code_simp
  have h2: "getLongLongFromObject (Some (heap ?c (argv ?c ! 2))) = Some 1099511627776"
    by code_simp
  have h3: "is_llong 1099511627776" by code_simp
  have h4: "(0::int) \<le> 1099511627776" by simp
  have h5: "ptr (heap ?c (argv ?c ! 3)) = PtrSds []" by code_simp
  have h6: "dict ?c ''k'' = None" by code_simp
  have g: "(512 * 1024 * 1024 :: int) < 1099511627776" by simp
  have m1: "dict (setrangeCommand ?c) ''k'' = None" by code_simp
  have m2: "modified (setrangeCommand ?c) = []" by code_simp
  have m3: "dirty (setrangeCommand ?c) = 0" by code_simp
  note t = setrange_empty_missing_key [OF h1 h2 h3 h4 h5 h6]
  show ?thesis
    using h1 h2 h3 h4 h5 h6 g t m1 m2 m3 by blast
qed

end
